theory Spec2Isabelle
  imports Complex_Main "HOL-Library.Word"
begin

section \<open>Tables\<close>

text \<open>
  The pipeline works on pandas DataFrames. A cell is one scalar: a float (\<open>Num\<close>, a finite
  double given by the real it denotes, or \<open>NaN\<close>), a 64-bit signed integer as an int64
  column holds it (\<open>I64\<close>), a string, or Python's None. NaN is what a SQL NULL among numbers
  and an unmatched row of a left join become; a column that is NULL in every row arrives as
  a column of None. The infinities are left out. A table is its row count (the length of
  its index) and its columns in order, each a label with one cell per row. Labels may
  repeat, as pandas allows; \<open>wf_df\<close> says that every column has one cell per row.
\<close>

datatype cell = Num real | I64 "64 word" | Str string | NaN | PyNone

record dataframe =
  nrows :: nat
  cols :: "(string \<times> cell list) list"

definition labels :: "dataframe \<Rightarrow> string list" where
  "labels d = map fst (cols d)"

definition wf_df :: "dataframe \<Rightarrow> bool" where
  "wf_df d = list_all (\<lambda>c. length (snd c) = nrows d) (cols d)"

text \<open>\<open>column_data d n\<close> is what \<open>d[n]\<close> selects: the data of every column labelled \<open>n\<close>.\<close>

definition column_data :: "dataframe \<Rightarrow> string \<Rightarrow> cell list list" where
  "column_data d n = map snd (filter (\<lambda>c. fst c = n) (cols d))"

text \<open>
  The dtype of a column is read off its cells, as \<open>read_sql_query\<close> and \<open>read_csv\<close>
  choose it: int64 when all are integers, float64 when all are floats, object otherwise. A
  column without rows counts as object, which is the dtype \<open>read_csv\<close> gives the columns
  of a file that has only a header. (A column that mixes integers with floats and nothing
  else does not come out of the readers, which make it float64; here it counts as object.)
\<close>

datatype dtype = Int64 | Float64 | Object

fun is_int_cell :: "cell \<Rightarrow> bool" where
  "is_int_cell (I64 w) = True"
| "is_int_cell v = False"

fun is_float_cell :: "cell \<Rightarrow> bool" where
  "is_float_cell (Num x) = True"
| "is_float_cell NaN = True"
| "is_float_cell v = False"

fun is_str_cell :: "cell \<Rightarrow> bool" where
  "is_str_cell (Str s) = True"
| "is_str_cell v = False"

fun is_null_cell :: "cell \<Rightarrow> bool" where
  "is_null_cell NaN = True"
| "is_null_cell PyNone = True"
| "is_null_cell v = False"

definition dtype_of :: "cell list \<Rightarrow> dtype" where
  "dtype_of xs =
     (if xs \<noteq> [] \<and> list_all is_int_cell xs then Int64
      else if xs \<noteq> [] \<and> list_all is_float_cell xs then Float64
      else Object)"

text \<open>
  The conversion of a 64-bit integer to a double: the nearest double, the even one of two
  that are equally near. Up to \<open>2^53\<close> it is exact.
\<close>

definition round_f64 :: "int \<Rightarrow> real" where
  "round_f64 n =
     (let a = \<bar>n\<bar>;
          e = length (filter (\<lambda>k. 2 ^ (53 + k) \<le> a) [0..<11]);
          q = a div 2 ^ e;
          r = a mod 2 ^ e;
          q' = (if 2 ^ e < 2 * r \<or> (2 * r = 2 ^ e \<and> odd q) then q + 1 else q)
      in real_of_int (sgn n * (q' * 2 ^ e)))"

fun upcast :: "cell \<Rightarrow> cell" where
  "upcast (I64 w) = Num (round_f64 (sint w))"
| "upcast v = v"

text \<open>\<open>df.empty\<close>: an axis of length zero.\<close>

definition df_empty :: "dataframe \<Rightarrow> bool" where
  "df_empty d = (nrows d = 0 \<or> cols d = [])"

datatype error =
    KeyError string
  | TypeError
  | ValueError
  | IndexError
  | AttributeError
  | ImportError
  | UnboundLocalError
  | EmptyDataError
  | MergeError
  | OtherError string

subsection \<open>The pandas operations the pipeline calls\<close>

text \<open>
  \<open>df.rename(columns=m)\<close>: every label that is a key of \<open>m\<close> is replaced by its value, all
  at once; a key that is no label is ignored (pandas' default \<open>errors='ignore'\<close>). The data
  and the column order are untouched.
\<close>

definition df_rename :: "(string \<rightharpoonup> string) \<Rightarrow> dataframe \<Rightarrow> dataframe" where
  "df_rename m d =
     d\<lparr>cols := map (\<lambda>c. (case m (fst c) of None \<Rightarrow> fst c | Some n \<Rightarrow> n, snd c)) (cols d)\<rparr>"

text \<open>
  \<open>abs\<close> of one cell. A float gives its magnitude and NaN stays NaN. A 64-bit integer is
  negated when it is negative, in 64-bit arithmetic: the least integer, \<open>-2^63\<close>, has no
  positive counterpart and stays as it is. A string and None raise TypeError. (In an
  object column pandas calls Python's own \<open>abs\<close> on each cell, which raises on the same cells
  and differs in nothing but the least integer; an object column whose cells are all
  numbers mixes integers with floats, and the readers deliver none.)
\<close>

definition int64_abs :: "64 word \<Rightarrow> 64 word" where
  "int64_abs w = (if sint w < 0 then - w else w)"

fun cell_abs :: "cell \<Rightarrow> error + cell" where
  "cell_abs (Num x) = Inr (Num \<bar>x\<bar>)"
| "cell_abs (I64 w) = Inr (I64 (int64_abs w))"
| "cell_abs NaN = Inr NaN"
| "cell_abs (Str s) = Inl TypeError"
| "cell_abs PyNone = Inl TypeError"

fun series_abs :: "cell list \<Rightarrow> error + cell list" where
  "series_abs [] = Inr []"
| "series_abs (v # vs) =
     (case cell_abs v of
        Inl e \<Rightarrow> Inl e
      | Inr a \<Rightarrow> (case series_abs vs of Inl e \<Rightarrow> Inl e | Inr as \<Rightarrow> Inr (a # as)))"

text \<open>
  \<open>df[c] = df[c].abs()\<close>: KeyError when no column is labelled \<open>c\<close>; otherwise every column
  labelled \<open>c\<close> is replaced by its magnitudes, and a string or a None among them raises
  TypeError before anything is assigned.
\<close>

fun abs_columns :: "string \<Rightarrow> (string \<times> cell list) list \<Rightarrow> error + (string \<times> cell list) list" where
  "abs_columns c [] = Inr []"
| "abs_columns c ((n, xs) # rest) =
     (if n = c then
        (case series_abs xs of
           Inl e \<Rightarrow> Inl e
         | Inr ys \<Rightarrow> (case abs_columns c rest of Inl e \<Rightarrow> Inl e | Inr r \<Rightarrow> Inr ((n, ys) # r)))
      else (case abs_columns c rest of Inl e \<Rightarrow> Inl e | Inr r \<Rightarrow> Inr ((n, xs) # r)))"

definition df_abs_column :: "string \<Rightarrow> dataframe \<Rightarrow> error + dataframe" where
  "df_abs_column c d =
     (if c \<notin> set (labels d) then Inl (KeyError c)
      else (case abs_columns c (cols d) of
              Inl e \<Rightarrow> Inl e
            | Inr cs \<Rightarrow> Inr (d\<lparr>cols := cs\<rparr>)))"

text \<open>
  \<open>mapping.get(crop, crop)\<close> for a dictionary keyed by strings: a string that is a key
  gives its value, every other cell gives itself. The comparison of keys is equality of
  strings, character by character.
\<close>

fun dict_get :: "(string \<rightharpoonup> cell) \<Rightarrow> cell \<Rightarrow> cell" where
  "dict_get m (Str s) = (case m s of None \<Rightarrow> Str s | Some c \<Rightarrow> c)"
| "dict_get m v = v"

text \<open>
  \<open>Series.apply\<close> collects the results as Python objects and then gives them a dtype
  again. Results with a string among them stay as they are, and so do results that are all
  None or all integers. Any other results (floats, or integers next to floats or None, or
  NaN next to None) become a float64 column: an integer becomes its double and None
  becomes NaN.
\<close>

fun as_float :: "cell \<Rightarrow> cell" where
  "as_float PyNone = NaN"
| "as_float v = upcast v"

definition convert_objects :: "cell list \<Rightarrow> cell list" where
  "convert_objects ys =
     (if list_ex is_str_cell ys \<or> list_all (\<lambda>v. v = PyNone) ys \<or> list_all is_int_cell ys then ys
      else map as_float ys)"

text \<open>
  \<open>df[c] = df[c].apply(f)\<close>: KeyError when no column is labelled \<open>c\<close>. With one such column
  \<open>df[c]\<close> is a Series, \<open>f\<close> is applied to each cell and the results are given their dtype.
  With several, \<open>df[c]\<close> is a DataFrame, \<open>apply\<close> hands \<open>f\<close> whole columns, and the dictionary
  lookup of an unhashable Series raises TypeError.
\<close>

definition df_apply_column :: "(cell \<Rightarrow> cell) \<Rightarrow> string \<Rightarrow> dataframe \<Rightarrow> error + dataframe" where
  "df_apply_column f c d =
     (case filter (\<lambda>col. fst col = c) (cols d) of
        [] \<Rightarrow> Inl (KeyError c)
      | [_] \<Rightarrow> Inr (d\<lparr>cols := map (\<lambda>col. if fst col = c
                                          then (fst col, convert_objects (map f (snd col)))
                                          else col) (cols d)\<rparr>)
      | _ # _ # _ \<Rightarrow> Inl TypeError)"

text \<open>
  \<open>df.drop(columns=c)\<close> with the default \<open>errors='raise'\<close>: KeyError when no column is
  labelled \<open>c\<close>, otherwise every column labelled \<open>c\<close> is removed.
\<close>

definition df_drop :: "string \<Rightarrow> dataframe \<Rightarrow> error + dataframe" where
  "df_drop c d =
     (if c \<notin> set (labels d) then Inl (KeyError c)
      else Inr (d\<lparr>cols := filter (\<lambda>col. fst col \<noteq> c) (cols d)\<rparr>))"

text \<open>
  \<open>pd.merge(left, right, on=k, how='left')\<close>, in the order pandas works.

  Both tables must have exactly one column labelled \<open>k\<close>: none raises KeyError, several
  raise ValueError (the right table is looked at first).

  Then the dtypes of the two key columns are compared, unless exactly one of them has no
  rows. Equal dtypes pass, and so do int64 against float64. An object column against a
  numeric one is judged by what \<open>infer_dtype\<close> finds in each: both integer-like pass; a
  string-like one against one that is not string-like raises ValueError; the rest pass.
\<close>

datatype inferred =
    Integer | IntegerNa | MixedIntegerFloat | MixedInteger | Floating | String | Mixed | Empty

text \<open>
  \<open>infer_dtype(values, skipna=False)\<close>. A numeric column answers by its dtype. In an object
  column the first cell that is not null (the last cell, when all are null) decides which
  kind is tried; when the column is not wholly of that kind, it is mixed-integer if it has
  an integer and mixed otherwise.
\<close>

definition first_valid :: "cell list \<Rightarrow> cell" where
  "first_valid xs = (case filter (\<lambda>v. \<not> is_null_cell v) xs of v # _ \<Rightarrow> v | [] \<Rightarrow> last xs)"

definition infer_dtype :: "cell list \<Rightarrow> inferred" where
  "infer_dtype xs =
     (case dtype_of xs of
        Int64 \<Rightarrow> Integer
      | Float64 \<Rightarrow> Floating
      | Object \<Rightarrow>
          (if xs = [] then Empty
           else
             (let v = first_valid xs;
                  int_float = (if list_all (\<lambda>c. is_int_cell c \<or> c = NaN) xs then IntegerNa
                               else MixedIntegerFloat);
                  mixed = (if list_ex is_int_cell xs then MixedInteger else Mixed)
              in if is_int_cell v then
                   (if list_all is_int_cell xs then Integer
                    else if list_all (\<lambda>c. is_int_cell c \<or> is_float_cell c) xs then int_float
                    else MixedInteger)
                 else if is_float_cell v then
                   (if list_all is_float_cell xs then Floating
                    else if list_all (\<lambda>c. is_int_cell c \<or> is_float_cell c) xs then int_float
                    else mixed)
                 else if is_str_cell v then
                   (if list_all is_str_cell xs then String else mixed)
                 else mixed)))"

fun integer_like :: "inferred \<Rightarrow> bool" where
  "integer_like Integer = True"
| "integer_like MixedInteger = True"
| "integer_like Empty = True"
| "integer_like t = False"

fun string_like :: "inferred \<Rightarrow> bool" where
  "string_like String = True"
| "string_like Mixed = True"
| "string_like Empty = True"
| "string_like t = False"

definition merge_keys_error :: "cell list \<Rightarrow> cell list \<Rightarrow> bool" where
  "merge_keys_error lkeys rkeys =
     (if (lkeys \<noteq> [] \<and> rkeys = []) \<or> (lkeys = [] \<and> rkeys \<noteq> []) then False
      else if dtype_of lkeys = dtype_of rkeys then False
      else if dtype_of lkeys \<noteq> Object \<and> dtype_of rkeys \<noteq> Object then False
      else if integer_like (infer_dtype lkeys) \<and> integer_like (infer_dtype rkeys) then False
      else (string_like (infer_dtype lkeys) \<and> \<not> string_like (infer_dtype rkeys))
         \<or> (string_like (infer_dtype rkeys) \<and> \<not> string_like (infer_dtype lkeys)))"

text \<open>
  How two keys are compared. Two int64 columns and two float64 columns compare their cells
  as they are (missing keys are equal to each other, as in pandas). An int64 column
  against a float64 column compares doubles. Whenever an object column takes part the
  cells are compared as Python objects: numbers by their exact value, and every null with
  every null.
\<close>

datatype key_mode = Same | AsFloat | AsObject

definition key_mode_of :: "cell list \<Rightarrow> cell list \<Rightarrow> key_mode" where
  "key_mode_of lkeys rkeys =
     (if dtype_of lkeys = dtype_of rkeys \<and> dtype_of lkeys \<noteq> Object then Same
      else if dtype_of lkeys \<noteq> Object \<and> dtype_of rkeys \<noteq> Object then AsFloat
      else AsObject)"

fun norm_key :: "key_mode \<Rightarrow> cell \<Rightarrow> cell" where
  "norm_key Same v = v"
| "norm_key AsFloat v = upcast v"
| "norm_key AsObject (I64 w) = Num (real_of_int (sint w))"
| "norm_key AsObject PyNone = NaN"
| "norm_key AsObject v = v"

definition key_values :: "dataframe \<Rightarrow> string \<Rightarrow> error + cell list" where
  "key_values d k =
     (case column_data d k of
        [] \<Rightarrow> Inl (KeyError k)
      | [xs] \<Rightarrow> Inr xs
      | _ # _ # _ \<Rightarrow> Inl ValueError)"

text \<open>
  The rows: for every left row in order, one output row per right row whose key compares
  equal, in the right table's order, or one output row without a right row when there is
  none.
\<close>

definition matches :: "cell list \<Rightarrow> cell \<Rightarrow> nat list" where
  "matches rkeys k = map fst (filter (\<lambda>jr. snd jr = k) (enumerate 0 rkeys))"

definition row_pairs :: "cell list \<Rightarrow> nat \<times> cell \<Rightarrow> (nat \<times> nat option) list" where
  "row_pairs rkeys ik =
     (case matches rkeys (snd ik) of
        [] \<Rightarrow> [(fst ik, None)]
      | j # js \<Rightarrow> map (\<lambda>j'. (fst ik, Some j')) (j # js))"

definition join_pairs :: "cell list \<Rightarrow> cell list \<Rightarrow> (nat \<times> nat option) list" where
  "join_pairs lkeys rkeys = concat (map (row_pairs rkeys) (enumerate 0 lkeys))"

text \<open>
  The columns of the result. A left column takes the cell of its left row. A right column
  takes the cell of its right row, and NaN where there is none; an int64 column that has
  to take a NaN becomes a float64 column, every integer converted to a double.
\<close>

definition take_rows :: "nat list \<Rightarrow> cell list \<Rightarrow> cell list" where
  "take_rows idx xs = map (\<lambda>i. xs ! i) idx"

definition promote :: "bool \<Rightarrow> cell list \<Rightarrow> cell list" where
  "promote unmatched xs = (if unmatched \<and> dtype_of xs = Int64 then map upcast xs else xs)"

definition take_rows_opt :: "nat option list \<Rightarrow> cell list \<Rightarrow> cell list" where
  "take_rows_opt idx xs =
     map (\<lambda>j. case j of None \<Rightarrow> NaN | Some j' \<Rightarrow> promote (None \<in> set idx) xs ! j') idx"

text \<open>
  The labels of the result. The right key column is dropped; a label that both tables
  then share gets the suffix \<open>_x\<close> on the left and \<open>_y\<close> on the right, and a duplicate label
  that only the suffixes produced raises MergeError.
\<close>

definition add_suffix :: "string list \<Rightarrow> string \<Rightarrow> string \<Rightarrow> string" where
  "add_suffix to_rename suffix x = (if x \<in> set to_rename then x @ suffix else x)"

definition suffix_dups :: "string list \<Rightarrow> string list \<Rightarrow> string list" where
  "suffix_dups old new =
     map (\<lambda>t. snd (snd t))
       (filter (\<lambda>t. snd (snd t) \<in> set (take (fst t) new) \<and> fst (snd t) \<notin> set (take (fst t) old))
          (zip [0..<length new] (zip old new)))"

definition pd_merge_left :: "dataframe \<Rightarrow> dataframe \<Rightarrow> string \<Rightarrow> error + dataframe" where
  "pd_merge_left left right on_key =
     (case key_values right on_key of
        Inl e \<Rightarrow> Inl e
      | Inr rkeys \<Rightarrow>
          (case key_values left on_key of
             Inl e \<Rightarrow> Inl e
           | Inr lkeys \<Rightarrow>
               (if merge_keys_error lkeys rkeys then Inl ValueError
                else
                  (let rcols = filter (\<lambda>c. fst c \<noteq> on_key) (cols right);
                       to_rename = filter (\<lambda>n. n \<in> set (map fst rcols)) (labels left);
                       llabels = map (add_suffix to_rename ''_x'') (labels left);
                       rlabels = map (add_suffix to_rename ''_y'') (map fst rcols)
                   in if suffix_dups (labels left) llabels @ suffix_dups (map fst rcols) rlabels \<noteq> []
                      then Inl MergeError
                      else
                        (let mode = key_mode_of lkeys rkeys;
                             pairs = join_pairs (map (norm_key mode) lkeys) (map (norm_key mode) rkeys)
                         in Inr \<lparr>nrows = length pairs,
                                 cols =
                                   map (\<lambda>c. (add_suffix to_rename ''_x'' (fst c),
                                             take_rows (map fst pairs) (snd c))) (cols left) @
                                   map (\<lambda>c. (add_suffix to_rename ''_y'' (fst c),
                                             take_rows_opt (map snd pairs) (snd c))) rcols\<rparr>)))))"

section \<open>The ingestion gateway (data ingestion module)\<close>

text \<open>
  The database and the web are outside the program. A \<open>world\<close> holds their answers
  (whether connecting to a database path fails, what a query returns, what reading a CSV
  from a URL returns) and the list of calls made to them so far, in order.
\<close>

datatype engine = Engine string

datatype call = CreateEngine string | ReadSqlQuery string string | ReadCsv string

record world =
  connect :: "string \<Rightarrow> error option"
  read_sql_query :: "string \<Rightarrow> string \<Rightarrow> error + dataframe"
  read_csv :: "string \<Rightarrow> error + dataframe"
  calls :: "call list"

text \<open>
  \<open>create_db_engine\<close> re-raises every failure, except that its ImportError handler
  raises the name \<open>e\<close>, which that handler never bound.
\<close>

definition create_db_engine :: "string \<Rightarrow> world \<Rightarrow> (error + engine) \<times> world" where
  "create_db_engine path w =
     (let w' = w\<lparr>calls := calls w @ [CreateEngine path]\<rparr>
      in case connect w path of
           None \<Rightarrow> (Inr (Engine path), w')
         | Some e \<Rightarrow> (if e = ImportError then (Inl UnboundLocalError, w') else (Inl e, w')))"

text \<open>\<open>query_data\<close> raises ValueError for an empty result and re-raises every failure.\<close>

fun query_data :: "engine \<Rightarrow> string \<Rightarrow> world \<Rightarrow> (error + dataframe) \<times> world" where
  "query_data (Engine path) q w =
     (let w' = w\<lparr>calls := calls w @ [ReadSqlQuery path q]\<rparr>
      in case read_sql_query w path q of
           Inl e \<Rightarrow> (Inl e, w')
         | Inr d \<Rightarrow> (if df_empty d then (Inl ValueError, w') else (Inr d, w')))"

text \<open>\<open>read_from_web_CSV\<close> returns what \<open>pd.read_csv\<close> returns and re-raises what it raises.\<close>

definition read_from_web_CSV :: "string \<Rightarrow> world \<Rightarrow> (error + dataframe) \<times> world" where
  "read_from_web_CSV url w = (read_csv w url, w\<lparr>calls := calls w @ [ReadCsv url]\<rparr>)"

section \<open>FieldDataProcessor (field-data processor module)\<close>

text \<open>
  The object's attributes. \<open>columns_to_rename\<close> is the configured dictionary in insertion
  order, \<open>values_to_rename\<close> the dictionary of crop names. \<open>df\<close> and \<open>engine\<close> start as
  None. A method returns what it returns or the exception it raises, together with the
  object as the call left it: an exception does not undo the assignments made before it.
  The logger has no effect on the tables and is left out.
\<close>

record FieldDataProcessor =
  db_path :: string
  sql_query :: string
  columns_to_rename :: "(string \<times> string) list"
  values_to_rename :: "string \<rightharpoonup> cell"
  weather_map_data :: string
  df :: "dataframe option"
  engine :: "engine option"

definition init :: "string \<Rightarrow> string \<Rightarrow> (string \<times> string) list \<Rightarrow> (string \<rightharpoonup> cell) \<Rightarrow> string
    \<Rightarrow> FieldDataProcessor" where
  "init path q ren vals url =
     \<lparr>db_path = path, sql_query = q, columns_to_rename = ren, values_to_rename = vals,
      weather_map_data = url, df = None, engine = None\<rparr>"

definition ingest_sql_data :: "FieldDataProcessor \<Rightarrow> world
    \<Rightarrow> (error + dataframe) \<times> FieldDataProcessor \<times> world" where
  "ingest_sql_data self w =
     (case create_db_engine (db_path self) w of
        (Inl e, w1) \<Rightarrow> (Inl e, self, w1)
      | (Inr eng, w1) \<Rightarrow>
          (let self1 = self\<lparr>engine := Some eng\<rparr>
           in case query_data eng (sql_query self1) w1 of
                (Inl e, w2) \<Rightarrow> (Inl e, self1, w2)
              | (Inr d, w2) \<Rightarrow> (Inr d, self1\<lparr>df := Some d\<rparr>, w2)))"

text \<open>
  The loop of \<open>rename_columns\<close> that looks for a temporary name: it appends an underscore
  while the name is a label of the table. Each round makes the name longer and a name
  longer than every label is none of them, so the loop ends.
\<close>

function temp_name_loop :: "string list \<Rightarrow> string \<Rightarrow> string" where
  "temp_name_loop columns temp_name =
     (if temp_name \<in> set columns then temp_name_loop columns (temp_name @ ''_'') else temp_name)"
  by pat_completeness auto
termination
proof (relation "measure (\<lambda>(columns, temp_name). Suc (Max (length ` set columns)) - length temp_name)")
  show "wf (measure (\<lambda>(columns, temp_name). Suc (Max (length ` set columns)) - length temp_name))"
    by simp
next
  fix columns :: "string list" and temp_name :: string
  assume "temp_name \<in> set columns"
  then have "length temp_name \<le> Max (length ` set columns)"
    by simp
  then show "((columns, temp_name @ ''_''), (columns, temp_name))
      \<in> measure (\<lambda>(columns, temp_name). Suc (Max (length ` set columns)) - length temp_name)"
    by simp
qed

declare temp_name_loop.simps [simp del]

text \<open>
  \<open>rename_columns\<close>: the first key and the first value of \<open>columns_to_rename\<close> (IndexError
  when the dictionary is empty), the temporary name, then two renames. The dictionary of
  the first rename is the literal \<open>{column1: temp_name, column2: column1}\<close>, where a repeated
  key keeps its last value.
\<close>

definition rename_columns :: "FieldDataProcessor \<Rightarrow> (error + unit) \<times> FieldDataProcessor" where
  "rename_columns self =
     (case columns_to_rename self of
        [] \<Rightarrow> (Inl IndexError, self)
      | (column1, column2) # _ \<Rightarrow>
          (case df self of
             None \<Rightarrow> (Inl AttributeError, self)
           | Some d \<Rightarrow>
               (let temp_name = temp_name_loop (labels d) ''__temp_name_for_swap__'';
                    d1 = df_rename [column1 \<mapsto> temp_name, column2 \<mapsto> column1] d;
                    d2 = df_rename [temp_name \<mapsto> column2] d1
                in (Inr (), self\<lparr>df := Some d2\<rparr>))))"

text \<open>
  \<open>apply_corrections\<close> is two assignments. The first, \<open>corrections_abs\<close>, stores the
  magnitudes of \<open>abs_column\<close>; the second, \<open>corrections_rename_values\<close>, stores the
  dictionary lookup over \<open>column_name\<close>. Subscripting \<open>df\<close> while it is None raises
  TypeError. An exception in the second leaves the first assignment in place.
\<close>

definition corrections_abs :: "FieldDataProcessor \<Rightarrow> string \<Rightarrow> (error + unit) \<times> FieldDataProcessor" where
  "corrections_abs self abs_column =
     (case df self of
        None \<Rightarrow> (Inl TypeError, self)
      | Some d \<Rightarrow>
          (case df_abs_column abs_column d of
             Inl e \<Rightarrow> (Inl e, self)
           | Inr d1 \<Rightarrow> (Inr (), self\<lparr>df := Some d1\<rparr>)))"

definition corrections_rename_values :: "FieldDataProcessor \<Rightarrow> string
    \<Rightarrow> (error + unit) \<times> FieldDataProcessor" where
  "corrections_rename_values self column_name =
     (case df self of
        None \<Rightarrow> (Inl TypeError, self)
      | Some d \<Rightarrow>
          (case df_apply_column (dict_get (values_to_rename self)) column_name d of
             Inl e \<Rightarrow> (Inl e, self)
           | Inr d2 \<Rightarrow> (Inr (), self\<lparr>df := Some d2\<rparr>)))"

definition apply_corrections :: "FieldDataProcessor \<Rightarrow> string \<Rightarrow> string
    \<Rightarrow> (error + unit) \<times> FieldDataProcessor" where
  "apply_corrections self column_name abs_column =
     (case corrections_abs self abs_column of
        (Inl e, self1) \<Rightarrow> (Inl e, self1)
      | (Inr _, self1) \<Rightarrow> corrections_rename_values self1 column_name)"

text \<open>
  \<open>weather_station_mapping\<close>: nothing happens and None is returned while \<open>df\<close> is None;
  otherwise the mapping table is read from the web, merged into \<open>df\<close> and returned.
\<close>

definition weather_station_mapping :: "FieldDataProcessor \<Rightarrow> world
    \<Rightarrow> (error + dataframe option) \<times> FieldDataProcessor \<times> world" where
  "weather_station_mapping self w =
     (case df self of
        None \<Rightarrow> (Inr None, self, w)
      | Some d \<Rightarrow>
          (case read_from_web_CSV (weather_map_data self) w of
             (Inl e, w1) \<Rightarrow> (Inl e, self, w1)
           | (Inr weather_map_df, w1) \<Rightarrow>
               (case pd_merge_left d weather_map_df ''Field_ID'' of
                  Inl e \<Rightarrow> (Inl e, self, w1)
                | Inr m \<Rightarrow> (Inr (Some weather_map_df), self\<lparr>df := Some m\<rparr>, w1))))"

text \<open>
  \<open>process\<close>: the four stages in order, each on the object the one before left, then the
  drop of the column \<open>Unnamed: 0\<close>. The first exception ends the run.
\<close>

definition process :: "FieldDataProcessor \<Rightarrow> world \<Rightarrow> (error + unit) \<times> FieldDataProcessor \<times> world" where
  "process self w =
     (case ingest_sql_data self w of
        (Inl e, self1, w1) \<Rightarrow> (Inl e, self1, w1)
      | (Inr _, self1, w1) \<Rightarrow>
          (case rename_columns self1 of
             (Inl e, self2) \<Rightarrow> (Inl e, self2, w1)
           | (Inr _, self2) \<Rightarrow>
               (case apply_corrections self2 ''Crop_type'' ''Elevation'' of
                  (Inl e, self3) \<Rightarrow> (Inl e, self3, w1)
                | (Inr _, self3) \<Rightarrow>
                    (case weather_station_mapping self3 w1 of
                       (Inl e, self4, w2) \<Rightarrow> (Inl e, self4, w2)
                     | (Inr _, self4, w2) \<Rightarrow>
                         (case df self4 of
                            None \<Rightarrow> (Inl AttributeError, self4, w2)
                          | Some d \<Rightarrow>
                              (case df_drop ''Unnamed: 0'' d of
                                 Inl e \<Rightarrow> (Inl e, self4, w2)
                               | Inr d' \<Rightarrow> (Inr (), self4\<lparr>df := Some d'\<rparr>, w2)))))))"

section \<open>Notions used in the statements, and example tables\<close>

text \<open>
  The exchange of two labels, and the comparison \<open>v >= 0\<close>, which is false of NaN. (Of a
  string or None the comparison raises; neither is left in a column of magnitudes.)
\<close>

definition swap_label :: "string \<Rightarrow> string \<Rightarrow> string \<Rightarrow> string" where
  "swap_label a b n = (if n = a then b else if n = b then a else n)"


text \<open>Row \<open>i\<close> of a list of columns.\<close>

definition row_of :: "(string \<times> cell list) list \<Rightarrow> nat \<Rightarrow> cell list" where
  "row_of cs i = map (\<lambda>c. snd c ! i) cs"

definition ex_abc :: dataframe where
  "ex_abc = \<lparr>nrows = 2, cols = [(''A'', [Num 1, Num 2]), (''B'', [Str ''x'', Str ''y'']),
     (''C'', [NaN, Num 3])]\<rparr>"

definition ex_bc :: dataframe where
  "ex_bc = \<lparr>nrows = 2, cols = [(''B'', [Str ''x'', Str ''y'']), (''C'', [NaN, Num 3])]\<rparr>"

definition ex_swap :: FieldDataProcessor where
  "ex_swap = (init ''db'' ''q'' [(''A'', ''B'')] Map.empty ''url'')\<lparr>df := Some ex_abc\<rparr>"

definition ex_fields :: dataframe where
  "ex_fields = \<lparr>nrows = 3, cols = [(''Field_ID'', [Num 1, Num 2, Num 3]),
     (''Elevation'', [Num (- 12.5), Num 7, NaN]),
     (''Crop_type'', [Str ''wheat '', Str ''wheat'', Str ''maize''])]\<rparr>"

definition ex_renamed :: dataframe where
  "ex_renamed = \<lparr>nrows = 3, cols = [(''Field_ID'', [Num 1, Num 2, Num 3]),
     (''Elevation'', [Num (- 12.5), Num 7, NaN]),
     (''Crop_type'', [Str ''wheat '', Str ''Wheat'', Str ''maize''])]\<rparr>"

definition ex_corrected :: dataframe where
  "ex_corrected = \<lparr>nrows = 3, cols = [(''Field_ID'', [Num 1, Num 2, Num 3]),
     (''Elevation'', [Num 12.5, Num 7, NaN]),
     (''Crop_type'', [Str ''wheat '', Str ''Wheat'', Str ''maize''])]\<rparr>"

definition ex_proc :: FieldDataProcessor where
  "ex_proc = (init ''db'' ''q'' [(''Annual_yield'', ''Crop_type'')] [''wheat'' \<mapsto> Str ''Wheat''] ''url'')
     \<lparr>df := Some ex_fields\<rparr>"

definition ex_chain :: FieldDataProcessor where
  "ex_chain = (init ''db'' ''q'' [(''Annual_yield'', ''Crop_type'')]
       [''maize'' \<mapsto> Str ''corn'', ''corn'' \<mapsto> Str ''Corn''] ''url'')
     \<lparr>df := Some \<lparr>nrows = 1, cols = [(''Crop_type'', [Str ''maize''])]\<rparr>\<rparr>"

definition ex_raw :: dataframe where
  "ex_raw = \<lparr>nrows = 3, cols = [(''Field_ID'', [Num 1, Num 2, Num 3]),
     (''Elevation'', [Num (- 12.5), Num 7, NaN]),
     (''Annual_yield'', [Str ''wheat '', Str ''wheat'', Str ''maize'']),
     (''Crop_type'', [Num 0.5, Num 0.7, Num 0.4])]\<rparr>"

definition ex_weather :: dataframe where
  "ex_weather = \<lparr>nrows = 3, cols = [(''Unnamed: 0'', [Num 0, Num 1, Num 2]),
     (''Field_ID'', [Num 1, Num 1, Num 3]),
     (''Weather_station'', [Num 4, Num 0, Num 2])]\<rparr>"

definition ex_world :: world where
  "ex_world = \<lparr>connect = (\<lambda>_. None), read_sql_query = (\<lambda>_ _. Inr ex_raw),
     read_csv = (\<lambda>_. Inr ex_weather), calls = []\<rparr>"

definition ex_new :: FieldDataProcessor where
  "ex_new = init ''db'' ''q'' [(''Annual_yield'', ''Crop_type'')] [''wheat'' \<mapsto> Str ''Wheat''] ''url''"

definition ex_weather_empty :: dataframe where
  "ex_weather_empty = \<lparr>nrows = 0, cols = [(''Unnamed: 0'', []), (''Field_ID'', []),
     (''Weather_station'', [])]\<rparr>"

definition ex_weather_noindex :: dataframe where
  "ex_weather_noindex = \<lparr>nrows = 3, cols = [(''Field_ID'', [Num 1, Num 1, Num 3]),
     (''Weather_station'', [Num 4, Num 0, Num 2])]\<rparr>"

definition ex_world_empty :: world where
  "ex_world_empty = \<lparr>connect = (\<lambda>_. None), read_sql_query = (\<lambda>_ _. Inr ex_raw),
     read_csv = (\<lambda>_. Inr ex_weather_empty), calls = []\<rparr>"

definition ex_world_noindex :: world where
  "ex_world_noindex = \<lparr>connect = (\<lambda>_. None), read_sql_query = (\<lambda>_ _. Inr ex_raw),
     read_csv = (\<lambda>_. Inr ex_weather_noindex), calls = []\<rparr>"

definition ex_swapped :: dataframe where
  "ex_swapped = \<lparr>nrows = 3, cols = [(''Field_ID'', [Num 1, Num 2, Num 3]),
     (''Elevation'', [Num (- 12.5), Num 7, NaN]),
     (''Crop_type'', [Str ''wheat '', Str ''wheat'', Str ''maize'']),
     (''Annual_yield'', [Num 0.5, Num 0.7, Num 0.4])]\<rparr>"

definition ex_clean :: dataframe where
  "ex_clean = \<lparr>nrows = 3, cols = [(''Field_ID'', [Num 1, Num 2, Num 3]),
     (''Elevation'', [Num 12.5, Num 7, NaN]),
     (''Crop_type'', [Str ''wheat '', Str ''Wheat'', Str ''maize'']),
     (''Annual_yield'', [Num 0.5, Num 0.7, Num 0.4])]\<rparr>"

definition ex_joined :: dataframe where
  "ex_joined = \<lparr>nrows = 4, cols = [(''Field_ID'', [Num 1, Num 1, Num 2, Num 3]),
     (''Elevation'', [Num 12.5, Num 12.5, Num 7, NaN]),
     (''Crop_type'', [Str ''wheat '', Str ''wheat '', Str ''Wheat'', Str ''maize'']),
     (''Annual_yield'', [Num 0.5, Num 0.5, Num 0.7, Num 0.4]),
     (''Unnamed: 0'', [Num 0, Num 1, NaN, Num 2]),
     (''Weather_station'', [Num 4, Num 0, NaN, Num 2])]\<rparr>"

definition ex_final :: dataframe where
  "ex_final = \<lparr>nrows = 4, cols = [(''Field_ID'', [Num 1, Num 1, Num 2, Num 3]),
     (''Elevation'', [Num 12.5, Num 12.5, Num 7, NaN]),
     (''Crop_type'', [Str ''wheat '', Str ''wheat '', Str ''Wheat'', Str ''maize'']),
     (''Annual_yield'', [Num 0.5, Num 0.5, Num 0.7, Num 0.4]),
     (''Weather_station'', [Num 4, Num 0, NaN, Num 2])]\<rparr>"

definition ex_joined_empty :: dataframe where
  "ex_joined_empty = \<lparr>nrows = 3, cols = [(''Field_ID'', [Num 1, Num 2, Num 3]),
     (''Elevation'', [Num 12.5, Num 7, NaN]),
     (''Crop_type'', [Str ''wheat '', Str ''Wheat'', Str ''maize'']),
     (''Annual_yield'', [Num 0.5, Num 0.7, Num 0.4]),
     (''Unnamed: 0'', [NaN, NaN, NaN]),
     (''Weather_station'', [NaN, NaN, NaN])]\<rparr>"

definition ex_final_empty :: dataframe where
  "ex_final_empty = \<lparr>nrows = 3, cols = [(''Field_ID'', [Num 1, Num 2, Num 3]),
     (''Elevation'', [Num 12.5, Num 7, NaN]),
     (''Crop_type'', [Str ''wheat '', Str ''Wheat'', Str ''maize'']),
     (''Annual_yield'', [Num 0.5, Num 0.7, Num 0.4]),
     (''Weather_station'', [NaN, NaN, NaN])]\<rparr>"

definition ex_s1 :: FieldDataProcessor where
  "ex_s1 = ex_new\<lparr>df := Some ex_raw, engine := Some (Engine ''db'')\<rparr>"

definition ex_calls :: "call list" where
  "ex_calls = [CreateEngine ''db'', ReadSqlQuery ''db'' ''q'']"

definition ex_joined_noindex :: dataframe where
  "ex_joined_noindex = \<lparr>nrows = 4, cols = [(''Field_ID'', [Num 1, Num 1, Num 2, Num 3]),
     (''Elevation'', [Num 12.5, Num 12.5, Num 7, NaN]),
     (''Crop_type'', [Str ''wheat '', Str ''wheat '', Str ''Wheat'', Str ''maize'']),
     (''Annual_yield'', [Num 0.5, Num 0.5, Num 0.7, Num 0.4]),
     (''Weather_station'', [Num 4, Num 0, NaN, Num 2])]\<rparr>"

text \<open>A field table and mapping tables whose identifiers are integers, or strings.\<close>

definition ex_plots :: dataframe where
  "ex_plots = \<lparr>nrows = 3, cols = [(''Field_ID'', [I64 1, I64 2, I64 3]),
     (''Elevation'', [Num 12.5, Num 7, NaN]),
     (''Crop_type'', [Str ''wheat'', Str ''maize'', Str ''maize''])]\<rparr>"

definition ex_stations :: dataframe where
  "ex_stations = \<lparr>nrows = 3, cols = [(''Field_ID'', [I64 1, I64 1, I64 3]),
     (''Weather_station'', [I64 4, I64 0, I64 2])]\<rparr>"

definition ex_station_labels :: dataframe where
  "ex_station_labels = \<lparr>nrows = 3, cols = [(''Field_ID'', [Str ''1'', Str ''1'', Str ''3'']),
     (''Weather_station'', [I64 4, I64 0, I64 2])]\<rparr>"

definition ex_plots_joined :: dataframe where
  "ex_plots_joined = \<lparr>nrows = 4, cols = [(''Field_ID'', [I64 1, I64 1, I64 2, I64 3]),
     (''Elevation'', [Num 12.5, Num 12.5, Num 7, NaN]),
     (''Crop_type'', [Str ''wheat'', Str ''wheat'', Str ''maize'', Str ''maize'']),
     (''Weather_station'', [Num 4, Num 0, NaN, Num 2])]\<rparr>"

definition ex_plots_proc :: FieldDataProcessor where
  "ex_plots_proc = (init ''db'' ''q'' [(''Annual_yield'', ''Crop_type'')] Map.empty ''url'')
     \<lparr>df := Some ex_plots\<rparr>"

definition ex_plots_world :: world where
  "ex_plots_world = \<lparr>connect = (\<lambda>_. None), read_sql_query = (\<lambda>_ _. Inr ex_plots),
     read_csv = (\<lambda>_. Inr ex_stations), calls = []\<rparr>"

definition ex_labels_world :: world where
  "ex_labels_world = \<lparr>connect = (\<lambda>_. None), read_sql_query = (\<lambda>_ _. Inr ex_plots),
     read_csv = (\<lambda>_. Inr ex_station_labels), calls = []\<rparr>"







lemmas ex_defs = ex_abc_def ex_bc_def ex_swap_def ex_fields_def ex_renamed_def ex_corrected_def
  ex_proc_def ex_chain_def ex_raw_def ex_weather_def ex_world_def ex_new_def init_def

section \<open>The Column Reconciler\<close>

lemma temp_name_loop_fresh: "temp_name_loop cs t \<notin> set cs"
  by (induction cs t rule: temp_name_loop.induct) (simp add: temp_name_loop.simps)

lemma swap_label_twice: "swap_label a b (swap_label a b n) = n"
  by (simp add: swap_label_def)

lemma two_renames_swap:
  assumes "t \<notin> set (labels d)" and "a \<in> set (labels d)"
  shows "df_rename [t \<mapsto> b] (df_rename [a \<mapsto> t, b \<mapsto> a] d)
           = d\<lparr>cols := map (\<lambda>c. (swap_label a b (fst c), snd c)) (cols d)\<rparr>"
proof -
  have ta: "t \<noteq> a" using assms by auto
  have "\<And>c. c \<in> set (cols d) \<Longrightarrow> fst c \<noteq> t"
    using assms(1) by (auto simp: labels_def)
  then show ?thesis
    using ta by (auto simp: df_rename_def swap_label_def)
qed

lemma rename_columns_eq:
  assumes "df self = Some d" and "columns_to_rename self = (a, b) # rest"
    and "a \<in> set (labels d)"
  shows "rename_columns self =
           (Inr (), self\<lparr>df := Some (d\<lparr>cols := map (\<lambda>c. (swap_label a b (fst c), snd c)) (cols d)\<rparr>)\<rparr>)"
  using assms two_renames_swap [OF temp_name_loop_fresh assms(3)]
  by (simp add: rename_columns_def Let_def)

lemma swapped_labels_mem:
  assumes "a \<in> set (labels d)" and "b \<in> set (labels d)"
  shows "a \<in> set (labels (d\<lparr>cols := map (\<lambda>c. (swap_label a b (fst c), snd c)) (cols d)\<rparr>))"
proof -
  from assms(2) obtain c where "c \<in> set (cols d)" "fst c = b" by (auto simp: labels_def)
  then have "swap_label a b (fst c) = a" by (simp add: swap_label_def)
  with \<open>c \<in> set (cols d)\<close> show ?thesis by (force simp: labels_def image_iff)
qed

lemma column_data_swapped:
  "column_data (d\<lparr>cols := map (\<lambda>c. (swap_label a b (fst c), snd c)) (cols d)\<rparr>) n
     = column_data d (swap_label a b n)"
proof -
  have "\<And>m. (swap_label a b m = n) = (m = swap_label a b n)"
    by (auto simp: swap_label_def)
  then show ?thesis
    by (simp add: column_data_def filter_map comp_def)
qed

text \<open>
  C2. When both configured names are labels of the table, \<open>rename_columns\<close> succeeds and
  exchanges them: the data selected by the first name is what the second name selected
  before and vice versa, every other name selects what it did, the labels are the old ones
  with the two names exchanged in place, the data of every position, the number of columns
  and the number of rows are unchanged, and no column bears the temporary name that the
  loop produced.
\<close>

theorem rename_columns_swaps:
  assumes "df self = Some d" and "columns_to_rename self = (a, b) # rest"
    and "a \<in> set (labels d)" and "b \<in> set (labels d)"
  shows "\<exists>d'. rename_columns self = (Inr (), self\<lparr>df := Some d'\<rparr>)
           \<and> column_data d' a = column_data d b
           \<and> column_data d' b = column_data d a
           \<and> (\<forall>n. n \<noteq> a \<and> n \<noteq> b \<longrightarrow> column_data d' n = column_data d n)
           \<and> labels d' = map (\<lambda>n. if n = a then b else if n = b then a else n) (labels d)
           \<and> map snd (cols d') = map snd (cols d)
           \<and> length (cols d') = length (cols d)
           \<and> nrows d' = nrows d
           \<and> temp_name_loop (labels d) ''__temp_name_for_swap__'' \<notin> set (labels d')"
proof -
  let ?t = "temp_name_loop (labels d) ''__temp_name_for_swap__''"
  let ?d = "d\<lparr>cols := map (\<lambda>c. (swap_label a b (fst c), snd c)) (cols d)\<rparr>"
  have run: "rename_columns self = (Inr (), self\<lparr>df := Some ?d\<rparr>)"
    by (rule rename_columns_eq [OF assms(1-3)])
  have fresh: "?t \<notin> set (labels d)" by (rule temp_name_loop_fresh)
  have lab: "labels ?d = map (swap_label a b) (labels d)"
    by (simp add: labels_def comp_def)
  have "?t \<noteq> a" "?t \<noteq> b" using fresh assms(3,4) by auto
  then have notin: "?t \<notin> set (labels ?d)"
    using fresh unfolding lab by (auto simp: swap_label_def)
  have others: "\<forall>n. n \<noteq> a \<and> n \<noteq> b \<longrightarrow> column_data ?d n = column_data d n"
    unfolding column_data_swapped by (simp add: swap_label_def)
  have lab': "labels ?d = map (\<lambda>n. if n = a then b else if n = b then a else n) (labels d)"
    by (simp add: labels_def comp_def swap_label_def)
  have "column_data ?d a = column_data d b" "column_data ?d b = column_data d a"
    unfolding column_data_swapped by (simp_all add: swap_label_def)
  moreover have "map snd (cols ?d) = map snd (cols d)" by (simp add: comp_def)
  moreover have "length (cols ?d) = length (cols d)" "nrows ?d = nrows d" by simp_all
  ultimately show ?thesis using run notin others lab' by blast
qed

theorem rename_columns_swaps_witness:
  "\<exists>d'. rename_columns ex_swap = (Inr (), ex_swap\<lparr>df := Some d'\<rparr>)
     \<and> column_data d' ''A'' = [[Str ''x'', Str ''y'']]
     \<and> column_data d' ''B'' = [[Num 1, Num 2]]
     \<and> labels d' = [''B'', ''A'', ''C'']"
proof -
  have h1: "df ex_swap = Some ex_abc" by (simp add: ex_defs)
  have h2: "columns_to_rename ex_swap = (''A'', ''B'') # []" by (simp add: ex_defs)
  have h3: "''A'' \<in> set (labels ex_abc)" by (simp add: ex_defs labels_def)
  have h4: "''B'' \<in> set (labels ex_abc)" by (simp add: ex_defs labels_def)
  have "column_data ex_abc ''B'' = [[Str ''x'', Str ''y'']]" "column_data ex_abc ''A'' = [[Num 1, Num 2]]"
    "map (\<lambda>n. if n = ''A'' then ''B'' else if n = ''B'' then ''A'' else n) (labels ex_abc) = [''B'', ''A'', ''C'']"
    by (simp_all add: ex_defs column_data_def labels_def)
  with rename_columns_swaps [OF h1 h2 h3 h4] show ?thesis by auto
qed

text \<open>
  C8. When both configured names are labels of the table, a second \<open>rename_columns\<close> with
  the same pair gives back the object the first one started from: the same labels in the
  same order over the same data.
\<close>

theorem rename_columns_twice:
  assumes "df self = Some d" and "columns_to_rename self = (a, b) # rest"
    and "a \<in> set (labels d)" and "b \<in> set (labels d)"
  shows "\<exists>self1. rename_columns self = (Inr (), self1) \<and> rename_columns self1 = (Inr (), self)"
proof -
  let ?d = "d\<lparr>cols := map (\<lambda>c. (swap_label a b (fst c), snd c)) (cols d)\<rparr>"
  let ?s = "self\<lparr>df := Some ?d\<rparr>"
  have one: "rename_columns self = (Inr (), ?s)"
    by (rule rename_columns_eq [OF assms(1-3)])
  have mem: "a \<in> set (labels ?d)" by (rule swapped_labels_mem [OF assms(3,4)])
  have "rename_columns ?s =
      (Inr (), ?s\<lparr>df := Some (?d\<lparr>cols := map (\<lambda>c. (swap_label a b (fst c), snd c)) (cols ?d)\<rparr>)\<rparr>)"
    using assms(2) mem by (intro rename_columns_eq [where rest = rest]) simp_all
  moreover have "?d\<lparr>cols := map (\<lambda>c. (swap_label a b (fst c), snd c)) (cols ?d)\<rparr> = d"
    by (simp add: comp_def swap_label_twice)
  ultimately have "rename_columns ?s = (Inr (), self)"
    using assms(1) by simp
  with one show ?thesis by blast
qed

theorem rename_columns_twice_witness:
  "\<exists>self1. rename_columns ex_swap = (Inr (), self1) \<and> rename_columns self1 = (Inr (), ex_swap)"
proof -
  have h1: "df ex_swap = Some ex_abc" by (simp add: ex_defs)
  have h2: "columns_to_rename ex_swap = (''A'', ''B'') # []" by (simp add: ex_defs)
  have h3: "''A'' \<in> set (labels ex_abc)" by (simp add: ex_defs labels_def)
  have h4: "''B'' \<in> set (labels ex_abc)" by (simp add: ex_defs labels_def)
  show ?thesis by (rule rename_columns_twice [OF h1 h2 h3 h4])
qed

text \<open>
  C7. \<open>rename_columns\<close> is to fail when one of the two names is no label of the table;
  its docstring promises KeyError. On the table with the columns B and C and the pair
  (A, B) it raises nothing: it returns normally and leaves the column B renamed to A.
\<close>

theorem rename_columns_missing_column:
  "rename_columns (ex_swap\<lparr>df := Some ex_bc\<rparr>)
     = (Inr (), ex_swap\<lparr>df := Some \<lparr>nrows = 2, cols = [(''A'', [Str ''x'', Str ''y'']), (''C'', [NaN, Num 3])]\<rparr>\<rparr>)"
proof -
  have "temp_name_loop [''B'', ''C''] ''__temp_name_for_swap__'' = ''__temp_name_for_swap__''"
    by (simp add: temp_name_loop.simps)
  then show ?thesis
    by (simp add: rename_columns_def ex_defs labels_def df_rename_def)
qed

section \<open>The Value Corrector\<close>

lemma round_f64_small:
  assumes "\<bar>n\<bar> < 2 ^ 53"
  shows "round_f64 n = real_of_int n"
proof -
  have "filter (\<lambda>k. 2 ^ (53 + k) \<le> \<bar>n\<bar>) [0..<11] = []"
  proof -
    have "\<not> (2 :: int) ^ (53 + k) \<le> \<bar>n\<bar>" for k
    proof -
      have "(2 :: int) ^ 53 \<le> 2 ^ (53 + k)" by (rule power_increasing) simp_all
      with assms show ?thesis by linarith
    qed
    then show ?thesis by (simp add: filter_empty_conv)
  qed
  then have "round_f64 n = real_of_int (sgn n * \<bar>n\<bar>)"
    by (simp add: round_f64_def Let_def)
  also have "sgn n * \<bar>n\<bar> = n" by (simp add: sgn_mult_abs)
  finally show ?thesis .
qed








lemma filter_fst_map:
  "(\<And>x. fst (g x) = fst x) \<Longrightarrow>
     filter (\<lambda>c. fst c = n) (map g xs) = map g (filter (\<lambda>c. fst c = n) xs)"
  by (induction xs) auto


lemma as_float_float: "is_float_cell v \<Longrightarrow> as_float v = v"
  by (cases v) simp_all

lemma as_float_is_float: "\<not> is_str_cell v \<Longrightarrow> is_float_cell (as_float v)"
  by (cases v) simp_all

text \<open>A column that holds a string, or is of one kind, keeps its cells when it is given a dtype.\<close>

lemma convert_objects_same:
  assumes "list_ex is_str_cell ys \<or> list_all is_int_cell ys \<or> list_all is_float_cell ys
           \<or> list_all (\<lambda>v. v = PyNone) ys"
  shows "convert_objects ys = ys"
proof (cases "list_ex is_str_cell ys \<or> list_all (\<lambda>v. v = PyNone) ys \<or> list_all is_int_cell ys")
  case True
  then show ?thesis by (simp add: convert_objects_def)
next
  case False
  with assms have "list_all is_float_cell ys" by blast
  then have "map as_float ys = ys"
    by (intro map_idI) (simp add: list_all_iff as_float_float)
  with False show ?thesis by (simp add: convert_objects_def)
qed


lemma convert_objects_floats:
  assumes "convert_objects ys \<noteq> ys"
  shows "list_all is_float_cell (convert_objects ys)"
proof -
  from assms have ns: "\<not> list_ex is_str_cell ys" and eq: "convert_objects ys = map as_float ys"
    by (auto simp: convert_objects_def split: if_splits)
  from ns have "\<forall>v \<in> set ys. is_float_cell (as_float v)"
    by (auto simp: list_ex_iff as_float_is_float)
  then show ?thesis by (simp add: eq list_all_iff)
qed

text \<open>
  Applying twice a function that leaves its own results and every cell that is no string
  as they are gives what applying it once gives.
\<close>

lemma convert_objects_map_twice:
  assumes idem: "\<And>v. f (f v) = f v" and nonstr: "\<And>v. \<not> is_str_cell v \<Longrightarrow> f v = v"
  shows "convert_objects (map f (convert_objects (map f xs))) = convert_objects (map f xs)"
proof (cases "convert_objects (map f xs) = map f xs")
  case True
  have mm: "map f (map f xs) = map f xs" by (simp add: idem)
  show ?thesis by (simp only: True mm)
next
  case False
  let ?ys = "convert_objects (map f xs)"
  from convert_objects_floats [OF False] have fl: "list_all is_float_cell ?ys" .
  have "\<forall>v \<in> set ?ys. \<not> is_str_cell v"
  proof
    fix v assume "v \<in> set ?ys"
    with fl have "is_float_cell v" by (simp add: list_all_iff)
    then show "\<not> is_str_cell v" by (cases v) simp_all
  qed
  then have "map f ?ys = ?ys" by (intro map_idI) (simp add: nonstr)
  moreover have "convert_objects ?ys = ?ys" using fl by (simp add: convert_objects_same)
  ultimately show ?thesis by simp
qed

lemma df_apply_column_Inr:
  assumes "df_apply_column f c d = Inr d2"
  shows "d2 = d\<lparr>cols := map (\<lambda>col. if fst col = c
                                      then (fst col, convert_objects (map f (snd col)))
                                      else col) (cols d)\<rparr>"
    and "\<exists>col. filter (\<lambda>col. fst col = c) (cols d) = [col]"
  using assms by (auto simp: df_apply_column_def split: list.splits)


lemma corrections_abs_Inr:
  assumes "df self = Some d" and "corrections_abs self c = (Inr (), self1)"
  shows "\<exists>d1. df_abs_column c d = Inr d1 \<and> self1 = self\<lparr>df := Some d1\<rparr>"
  using assms by (auto simp: corrections_abs_def split: sum.splits)

lemma corrections_rename_values_Inr:
  assumes "df self = Some d" and "corrections_rename_values self c = (Inr (), self1)"
  shows "\<exists>d2. df_apply_column (dict_get (values_to_rename self)) c d = Inr d2
           \<and> self1 = self\<lparr>df := Some d2\<rparr>"
  using assms by (auto simp: corrections_rename_values_def split: sum.splits)

lemma apply_corrections_Inr:
  assumes "df self = Some d" and "apply_corrections self cn ac = (Inr (), self')"
  shows "\<exists>d1 d2. df_abs_column ac d = Inr d1
           \<and> df_apply_column (dict_get (values_to_rename self)) cn d1 = Inr d2
           \<and> self' = self\<lparr>df := Some d2\<rparr>"
proof -
  from assms(2) obtain self1 where a: "corrections_abs self ac = (Inr (), self1)"
    and b: "corrections_rename_values self1 cn = (Inr (), self')"
    by (auto simp: apply_corrections_def split: prod.splits sum.splits)
  from corrections_abs_Inr [OF assms(1) a] obtain d1
    where d1: "df_abs_column ac d = Inr d1" and s1: "self1 = self\<lparr>df := Some d1\<rparr>" by blast
  have "df self1 = Some d1" by (simp add: s1)
  from corrections_rename_values_Inr [OF this b] obtain d2
    where "df_apply_column (dict_get (values_to_rename self1)) cn d1 = Inr d2"
      and "self' = self1\<lparr>df := Some d2\<rparr>" by blast
  then show ?thesis using d1 by (simp add: s1)
qed

















lemma ex_rename_values:
  "corrections_rename_values ex_proc ''Crop_type'' = (Inr (), ex_proc\<lparr>df := Some ex_renamed\<rparr>)"
  by (simp add: corrections_rename_values_def df_apply_column_def convert_objects_def ex_defs)



lemma df_apply_column_twice:
  assumes "df_apply_column f c d = Inr d1" and "\<And>v. f (f v) = f v"
    and "\<And>v. \<not> is_str_cell v \<Longrightarrow> f v = v"
  shows "df_apply_column f c d1 = Inr d1"
proof -
  let ?g = "\<lambda>col. if fst col = c then (fst col, convert_objects (map f (snd col))) else col"
  note d1 = df_apply_column_Inr(1) [OF assms(1)]
  from df_apply_column_Inr(2) [OF assms(1)]
  obtain col where col: "filter (\<lambda>col. fst col = c) (cols d) = [col]" by blast
  have "filter (\<lambda>col. fst col = c) (cols d1) = map ?g (filter (\<lambda>col. fst col = c) (cols d))"
    unfolding d1 by (simp, rule filter_fst_map) simp
  then have one: "filter (\<lambda>col. fst col = c) (cols d1) = [?g col]" using col by simp
  have "map ?g (cols d1) = cols d1"
    unfolding d1 by (simp add: convert_objects_map_twice [of f, OF assms(2,3)])
  then have "d1\<lparr>cols := map ?g (cols d1)\<rparr> = d1" by simp
  then show ?thesis using one by (simp add: df_apply_column_def)
qed

text \<open>
  C9, as the code has it. When every value of the dictionary is looked up to itself, a
  second dictionary step over the same column changes nothing.
\<close>

theorem rename_values_twice:
  assumes "df self = Some d"
    and "\<forall>k c. values_to_rename self k = Some c \<longrightarrow> dict_get (values_to_rename self) c = c"
    and "corrections_rename_values self column_name = (Inr (), self1)"
  shows "corrections_rename_values self1 column_name = (Inr (), self1)"
proof -
  let ?m = "values_to_rename self"
  from corrections_rename_values_Inr [OF assms(1,3)] obtain d1
    where d1: "df_apply_column (dict_get ?m) column_name d = Inr d1"
      and s1: "self1 = self\<lparr>df := Some d1\<rparr>" by blast
  have idem: "\<And>v. dict_get ?m (dict_get ?m v) = dict_get ?m v"
  proof -
    fix v show "dict_get ?m (dict_get ?m v) = dict_get ?m v"
    proof (cases v)
      case (Str s)
      then show ?thesis using assms(2) by (cases "?m s") auto
    qed simp_all
  qed
  have nonstr: "\<And>v. \<not> is_str_cell v \<Longrightarrow> dict_get ?m v = v"
  proof -
    fix v assume "\<not> is_str_cell v" then show "dict_get ?m v = v" by (cases v) simp_all
  qed
  have "df_apply_column (dict_get ?m) column_name d1 = Inr d1"
    using d1 idem nonstr by (rule df_apply_column_twice)
  then show ?thesis by (simp add: corrections_rename_values_def s1)
qed

theorem rename_values_twice_witness:
  "corrections_rename_values ex_proc ''Crop_type'' = (Inr (), ex_proc\<lparr>df := Some ex_renamed\<rparr>)
   \<and> corrections_rename_values (ex_proc\<lparr>df := Some ex_renamed\<rparr>) ''Crop_type''
       = (Inr (), ex_proc\<lparr>df := Some ex_renamed\<rparr>)"
proof -
  have h1: "df ex_proc = Some ex_fields" by (simp add: ex_defs)
  have h2: "\<forall>k c. values_to_rename ex_proc k = Some c \<longrightarrow> dict_get (values_to_rename ex_proc) c = c"
    by (simp add: ex_defs)
  show ?thesis using rename_values_twice [OF h1 h2 ex_rename_values] ex_rename_values by simp
qed

text \<open>
  Without that condition a second step can change the table again: with the dictionary
  \<open>{maize: corn, corn: Corn}\<close> the first step turns maize into corn and the second turns it
  into Corn.
\<close>

theorem rename_values_twice_counterexample:
  "corrections_rename_values ex_chain ''Crop_type''
     = (Inr (), ex_chain\<lparr>df := Some \<lparr>nrows = 1, cols = [(''Crop_type'', [Str ''corn''])]\<rparr>\<rparr>)
   \<and> corrections_rename_values
         (ex_chain\<lparr>df := Some \<lparr>nrows = 1, cols = [(''Crop_type'', [Str ''corn''])]\<rparr>\<rparr>) ''Crop_type''
     = (Inr (), ex_chain\<lparr>df := Some \<lparr>nrows = 1, cols = [(''Crop_type'', [Str ''Corn''])]\<rparr>\<rparr>)
   \<and> ex_chain\<lparr>df := Some \<lparr>nrows = 1, cols = [(''Crop_type'', [Str ''Corn''])]\<rparr>\<rparr>
     \<noteq> ex_chain\<lparr>df := Some \<lparr>nrows = 1, cols = [(''Crop_type'', [Str ''corn''])]\<rparr>\<rparr>"
  by (simp add: corrections_rename_values_def df_apply_column_def convert_objects_def ex_defs)

section \<open>The Station Joiner\<close>

lemma length_filter_enumerate:
  "length (filter (\<lambda>jr. snd jr = k) (enumerate n rk)) = count_list rk k"
  by (induction rk arbitrary: n) auto

lemma length_matches: "length (matches rk k) = count_list rk k"
  by (simp add: matches_def length_filter_enumerate)

lemma set_matches: "set (matches rk k) = {j. j < length rk \<and> rk ! j = k}"
proof -
  have "set (matches rk k) = fst ` {p \<in> set (enumerate 0 rk). snd p = k}"
    by (simp add: matches_def)
  also have "\<dots> = {j. j < length rk \<and> rk ! j = k}"
    by (force simp: in_set_enumerate_eq image_iff)
  finally show ?thesis .
qed

lemma matches_Nil_iff: "matches rk k = [] \<longleftrightarrow> k \<notin> set rk"
proof -
  have "matches rk k = [] \<longleftrightarrow> length (matches rk k) = 0" by simp
  also have "\<dots> \<longleftrightarrow> count_list rk k = 0" by (simp only: length_matches)
  also have "\<dots> \<longleftrightarrow> k \<notin> set rk" by (rule count_list_0_iff)
  finally show ?thesis .
qed

lemma row_pairs_eq:
  "row_pairs rk ik =
     (if snd ik \<in> set rk then map (\<lambda>j. (fst ik, Some j)) (matches rk (snd ik)) else [(fst ik, None)])"
proof (cases "matches rk (snd ik)")
  case Nil
  then have "snd ik \<notin> set rk" by (simp add: matches_Nil_iff)
  with Nil show ?thesis by (simp add: row_pairs_def)
next
  case (Cons j js)
  then have "snd ik \<in> set rk" using matches_Nil_iff [of rk "snd ik"] by simp
  with Cons show ?thesis by (simp add: row_pairs_def)
qed

lemma length_row_pairs: "length (row_pairs rk ik) = max (Suc 0) (count_list rk (snd ik))"
proof (cases "snd ik \<in> set rk")
  case True
  then have "count_list rk (snd ik) \<noteq> 0" by (simp add: count_list_0_iff)
  with True show ?thesis by (simp add: row_pairs_eq length_matches max_def)
next
  case False
  then have "count_list rk (snd ik) = 0" by (simp add: count_list_0_iff)
  with False show ?thesis by (simp add: row_pairs_eq)
qed

lemma fst_row_pairs: "p \<in> set (row_pairs rk ik) \<Longrightarrow> fst p = fst ik"
  by (auto simp: row_pairs_eq split: if_splits)

lemma map_fst_row_pairs:
  "map fst (row_pairs rk ik) = replicate (max (Suc 0) (count_list rk (snd ik))) (fst ik)"
proof -
  have "map fst (row_pairs rk ik) = replicate (length (row_pairs rk ik)) (fst ik)"
    by (rule replicate_length_same [symmetric, of "map fst (row_pairs rk ik)" "fst ik", simplified])
       (auto dest: fst_row_pairs)
  then show ?thesis by (simp only: length_row_pairs)
qed

lemma row_pairs_sound:
  assumes "(i, jo) \<in> set (row_pairs rk ik)"
  shows "i = fst ik \<and> (case jo of None \<Rightarrow> snd ik \<notin> set rk
                                 | Some j \<Rightarrow> j < length rk \<and> rk ! j = snd ik)"
proof (cases "snd ik \<in> set rk")
  case True
  with assms obtain j where "j \<in> set (matches rk (snd ik))" "i = fst ik" "jo = Some j"
    by (auto simp: row_pairs_eq)
  then show ?thesis by (simp add: set_matches)
next
  case False
  with assms show ?thesis by (simp add: row_pairs_eq)
qed

lemma map_fst_pairs_from:
  "map fst (concat (map (row_pairs rk) (enumerate n lk)))
     = concat (map (\<lambda>ik. replicate (max (Suc 0) (count_list rk (snd ik))) (fst ik)) (enumerate n lk))"
  by (simp only: map_concat map_map comp_def map_fst_row_pairs)

lemma length_pairs_from:
  "length (concat (map (row_pairs rk) (enumerate n lk)))
     = sum_list (map (\<lambda>k. max (Suc 0) (count_list rk k)) lk)"
  by (induction lk arbitrary: n) (simp_all add: length_row_pairs)

lemma length_join_pairs:
  "length (join_pairs lk rk) = sum_list (map (\<lambda>k. max (Suc 0) (count_list rk k)) lk)"
  by (simp only: join_pairs_def length_pairs_from)

lemma length_join_pairs_ge: "length lk \<le> length (join_pairs lk rk)"
proof -
  have "length lk \<le> sum_list (map (\<lambda>k. max (Suc 0) (count_list rk k)) lk)"
    by (induction lk) auto
  then show ?thesis by (simp only: length_join_pairs)
qed

lemma distinct_count_list_le1: "distinct rk \<Longrightarrow> count_list rk k \<le> Suc 0"
  by (induction rk) (auto simp: count_list_0_iff)

lemma length_join_pairs_distinct:
  assumes "distinct rk"
  shows "length (join_pairs lk rk) = length lk"
proof -
  have m1: "max (Suc 0) (count_list rk k) = Suc 0" for k
    using distinct_count_list_le1 [OF assms, of k] by (simp add: max_def)
  have "sum_list (map (\<lambda>k. max (Suc 0) (count_list rk k)) lk) = length lk"
    by (induction lk) (simp_all add: m1)
  then show ?thesis by (simp only: length_join_pairs)
qed

lemma count_list_replicate: "count_list (replicate m x) y = (if x = y then m else 0)"
  by (induction m) auto

lemma count_fst_pairs_from:
  "count_list (concat (map (\<lambda>ik. replicate (max (Suc 0) (count_list rk (snd ik))) (fst ik)) (enumerate n lk))) i
     = (if n \<le> i \<and> i < n + length lk then max (Suc 0) (count_list rk (lk ! (i - n))) else 0)"
proof (induction lk arbitrary: n)
  case Nil
  then show ?case by simp
next
  case (Cons k lk)
  let ?f = "\<lambda>ik. replicate (max (Suc 0) (count_list rk (snd ik))) (fst ik)"
  have step: "count_list (concat (map ?f (enumerate n (k # lk)))) i
      = (if n = i then max (Suc 0) (count_list rk k) else 0)
        + count_list (concat (map ?f (enumerate (Suc n) lk))) i"
    by (simp add: count_list_replicate)
  show ?case
  proof (cases "i = n")
    case True
    then show ?thesis unfolding step Cons.IH by simp
  next
    case False
    show ?thesis
    proof (cases "Suc n \<le> i \<and> i < Suc n + length lk")
      case True
      then have "(k # lk) ! (i - n) = lk ! (i - Suc n)"
        by (simp add: nth_Cons')
      with True False show ?thesis unfolding step Cons.IH by simp
    next
      case False
      with \<open>i \<noteq> n\<close> have "\<not> (n \<le> i \<and> i < n + length (k # lk))" by auto
      with False \<open>i \<noteq> n\<close> show ?thesis unfolding step Cons.IH by simp
    qed
  qed
qed

lemma count_fst_join_pairs:
  assumes "i < length lk"
  shows "count_list (map fst (join_pairs lk rk)) i = max (Suc 0) (count_list rk (lk ! i))"
proof -
  have "count_list (map fst (join_pairs lk rk)) i
      = (if 0 \<le> i \<and> i < 0 + length lk then max (Suc 0) (count_list rk (lk ! (i - 0))) else 0)"
    unfolding join_pairs_def map_fst_pairs_from by (rule count_fst_pairs_from)
  with assms show ?thesis by simp
qed

lemma sorted_fst_pairs_from:
  "sorted (concat (map (\<lambda>ik. replicate (max (Suc 0) (count_list rk (snd ik))) (fst ik)) (enumerate n lk)))
   \<and> (\<forall>x \<in> set (concat (map (\<lambda>ik. replicate (max (Suc 0) (count_list rk (snd ik))) (fst ik)) (enumerate n lk))). n \<le> x)"
proof (induction lk arbitrary: n)
  case Nil
  then show ?case by simp
next
  case (Cons k lk)
  let ?f = "\<lambda>ik. replicate (max (Suc 0) (count_list rk (snd ik))) (fst ik)"
  let ?rest = "concat (map ?f (enumerate (Suc n) lk))"
  have eq: "concat (map ?f (enumerate n (k # lk))) = replicate (max (Suc 0) (count_list rk k)) n @ ?rest"
    by simp
  from Cons.IH [of "Suc n"] have s: "sorted ?rest" and ge: "\<forall>x \<in> set ?rest. Suc n \<le> x"
    by blast+
  have "sorted (replicate (max (Suc 0) (count_list rk k)) n @ ?rest)"
    unfolding sorted_append using s ge by (auto simp: sorted_replicate)
  moreover have "\<forall>x \<in> set (replicate (max (Suc 0) (count_list rk k)) n @ ?rest). n \<le> x"
    using ge by auto
  ultimately show ?case unfolding eq by blast
qed

lemma sorted_fst_join_pairs: "sorted (map fst (join_pairs lk rk))"
  unfolding join_pairs_def map_fst_pairs_from using sorted_fst_pairs_from [of rk 0 lk] by blast

lemma join_pairs_sound:
  assumes "(i, jo) \<in> set (join_pairs lk rk)"
  shows "i < length lk \<and> (case jo of None \<Rightarrow> lk ! i \<notin> set rk
                                    | Some j \<Rightarrow> j < length rk \<and> rk ! j = lk ! i)"
proof -
  from assms obtain ik where ik: "ik \<in> set (enumerate 0 lk)" and mem: "(i, jo) \<in> set (row_pairs rk ik)"
    by (auto simp: join_pairs_def)
  from ik have a: "fst ik < length lk" and b: "snd ik = lk ! fst ik"
    by (auto simp: in_set_enumerate_eq)
  from row_pairs_sound [OF mem] have c: "i = fst ik"
    and d: "case jo of None \<Rightarrow> snd ik \<notin> set rk | Some j \<Rightarrow> j < length rk \<and> rk ! j = snd ik"
    by blast+
  from a c have "i < length lk" by simp
  moreover from d b c have "case jo of None \<Rightarrow> lk ! i \<notin> set rk | Some j \<Rightarrow> j < length rk \<and> rk ! j = lk ! i"
    by (cases jo) simp_all
  ultimately show ?thesis by blast
qed

lemma distinct_matches: "distinct (matches rk k)"
proof -
  have "distinct (map fst (enumerate 0 rk))" by (simp add: map_fst_enumerate)
  then show ?thesis unfolding matches_def by (rule distinct_map_filter)
qed

lemma distinct_row_pairs: "distinct (row_pairs rk ik)"
  by (simp add: row_pairs_eq distinct_map distinct_matches inj_on_def)

lemma distinct_pairs_from:
  "distinct (concat (map (row_pairs rk) (enumerate n lk)))
   \<and> (\<forall>p \<in> set (concat (map (row_pairs rk) (enumerate n lk))). n \<le> fst p)"
proof (induction lk arbitrary: n)
  case Nil
  then show ?case by simp
next
  case (Cons k lk)
  let ?rest = "concat (map (row_pairs rk) (enumerate (Suc n) lk))"
  have eq: "concat (map (row_pairs rk) (enumerate n (k # lk))) = row_pairs rk (n, k) @ ?rest"
    by simp
  from Cons.IH [of "Suc n"] have dr: "distinct ?rest" and ge: "\<forall>p \<in> set ?rest. Suc n \<le> fst p"
    by blast+
  have hd: "\<forall>p \<in> set (row_pairs rk (n, k)). fst p = n"
    using fst_row_pairs [of _ rk "(n, k)"] by simp
  have "set (row_pairs rk (n, k)) \<inter> set ?rest = {}"
    using hd ge by fastforce
  then have "distinct (row_pairs rk (n, k) @ ?rest)"
    using dr distinct_row_pairs [of rk "(n, k)"] by simp
  moreover have "\<forall>p \<in> set (row_pairs rk (n, k) @ ?rest). n \<le> fst p"
    using hd ge by fastforce
  ultimately show ?case unfolding eq by blast
qed

lemma distinct_join_pairs: "distinct (join_pairs lk rk)"
  unfolding join_pairs_def using distinct_pairs_from [of rk 0 lk] by blast

lemma key_values_length:
  assumes "key_values d k = Inr xs" and "wf_df d"
  shows "length xs = nrows d"
proof -
  from assms(1) have "column_data d k = [xs]"
    by (auto simp: key_values_def split: list.splits)
  then have "xs \<in> set (column_data d k)" by simp
  then obtain c where "c \<in> set (cols d)" "snd c = xs"
    by (auto simp: column_data_def)
  with assms(2) show ?thesis by (auto simp: wf_df_def list_all_iff)
qed

lemma merge_keys_error_no_right: "\<not> merge_keys_error lk []"
  by (cases lk) (simp_all add: merge_keys_error_def)

lemma pd_merge_left_Inr:
  assumes "key_values left k = Inr lk" and "key_values right k = Inr rk"
    and "\<not> merge_keys_error lk rk"
    and "pd_merge_left left right k \<noteq> Inl MergeError"
    and "lk' = map (norm_key (key_mode_of lk rk)) lk"
    and "rk' = map (norm_key (key_mode_of lk rk)) rk"
  shows "\<exists>lf rf. pd_merge_left left right k =
           Inr \<lparr>nrows = length (join_pairs lk' rk'),
                cols = map (\<lambda>c. (lf (fst c), take_rows (map fst (join_pairs lk' rk')) (snd c))) (cols left) @
                       map (\<lambda>c. (rf (fst c), take_rows_opt (map snd (join_pairs lk' rk')) (snd c)))
                         (filter (\<lambda>c. fst c \<noteq> k) (cols right))\<rparr>"
  using assms by (auto simp: pd_merge_left_def Let_def split: if_splits)

lemma row_of_take_rows:
  assumes "p < length idx"
  shows "row_of (map (\<lambda>c. (lf (fst c), take_rows idx (snd c))) cs) p = row_of cs (idx ! p)"
  using assms by (simp add: row_of_def take_rows_def comp_def)

lemma row_of_take_rows_opt:
  assumes "p < length idx"
  shows "row_of (map (\<lambda>c. (rf (fst c), take_rows_opt idx (snd c))) cs) p
           = (case idx ! p of
                None \<Rightarrow> replicate (length cs) NaN
              | Some j \<Rightarrow> map (\<lambda>c. promote (None \<in> set idx) (snd c) ! j) cs)"
  using assms
  by (cases "idx ! p") (simp_all add: row_of_def take_rows_opt_def comp_def map_replicate_const)

lemma weather_station_mapping_Some:
  assumes "df self = Some d" and "read_csv w (weather_map_data self) = Inr wm"
    and "pd_merge_left d wm ''Field_ID'' = Inr out"
  shows "weather_station_mapping self w =
           (Inr (Some wm), self\<lparr>df := Some out\<rparr>, w\<lparr>calls := calls w @ [ReadCsv (weather_map_data self)]\<rparr>)"
  using assms by (simp add: weather_station_mapping_def read_from_web_CSV_def)

text \<open>
  C4, as the code has it. Let the working table and the fetched mapping table each have
  one column labelled \<open>Field_ID\<close>, let the dtypes of the two key columns pass the check of
  \<open>merge\<close>, and let the suffixes produce no duplicate label. Then \<open>weather_station_mapping\<close>
  returns the fetched table as it is and stores a left outer join. The output rows
  correspond to pairs of a left row and an optional right row, in the order of the left
  rows and without repetition; a left row occurs once per right row whose key compares
  equal to its own, and once when there is none; the left columns of an output row are the
  left row. The right columns are NaN throughout when there is no match; otherwise they
  are the cells of the matching right row, those of an int64 column converted to float64
  when some output row has no match. So the output has at least as many rows as the field
  table, and more only when two keys of the mapping table compare equal.
\<close>

theorem weather_station_mapping_left_join:
  assumes "df self = Some d" and "wf_df d" and "wf_df wm"
    and "read_csv w (weather_map_data self) = Inr wm"
    and "key_values d ''Field_ID'' = Inr lk" and "key_values wm ''Field_ID'' = Inr rk"
    and "\<not> merge_keys_error lk rk"
    and "pd_merge_left d wm ''Field_ID'' \<noteq> Inl MergeError"
    and "lk' = map (norm_key (key_mode_of lk rk)) lk"
    and "rk' = map (norm_key (key_mode_of lk rk)) rk"
  shows "\<exists>out pairs.
           weather_station_mapping self w =
             (Inr (Some wm), self\<lparr>df := Some out\<rparr>,
              w\<lparr>calls := calls w @ [ReadCsv (weather_map_data self)]\<rparr>)
         \<and> wf_df out \<and> nrows out = length pairs
         \<and> length (cols out) = length (cols d) + length (filter (\<lambda>c. fst c \<noteq> ''Field_ID'') (cols wm))
         \<and> sorted (map fst pairs) \<and> distinct pairs
         \<and> (\<forall>i<nrows d. count_list (map fst pairs) i = max 1 (count_list rk' (lk' ! i)))
         \<and> (\<forall>p<nrows out. fst (pairs ! p) < nrows d
               \<and> row_of (take (length (cols d)) (cols out)) p = row_of (cols d) (fst (pairs ! p)))
         \<and> (\<forall>p<nrows out.
               case snd (pairs ! p) of
                 None \<Rightarrow> lk' ! fst (pairs ! p) \<notin> set rk'
                   \<and> row_of (drop (length (cols d)) (cols out)) p
                       = replicate (length (filter (\<lambda>c. fst c \<noteq> ''Field_ID'') (cols wm))) NaN
               | Some j \<Rightarrow> j < nrows wm \<and> rk' ! j = lk' ! fst (pairs ! p)
                   \<and> row_of (drop (length (cols d)) (cols out)) p
                       = map (\<lambda>c. promote (None \<in> set (map snd pairs)) (snd c) ! j)
                           (filter (\<lambda>c. fst c \<noteq> ''Field_ID'') (cols wm)))
         \<and> nrows d \<le> nrows out
         \<and> (nrows d < nrows out \<longrightarrow> \<not> distinct rk')"
proof -
  let ?pairs = "join_pairs lk' rk'"
  let ?rc = "filter (\<lambda>c. fst c \<noteq> ''Field_ID'') (cols wm)"
  from pd_merge_left_Inr [OF assms(5,6,7,8,9,10)] obtain lf rf where
    m: "pd_merge_left d wm ''Field_ID'' =
          Inr \<lparr>nrows = length ?pairs,
               cols = map (\<lambda>c. (lf (fst c), take_rows (map fst ?pairs) (snd c))) (cols d) @
                      map (\<lambda>c. (rf (fst c), take_rows_opt (map snd ?pairs) (snd c))) ?rc\<rparr>"
    by blast
  let ?L = "map (\<lambda>c. (lf (fst c), take_rows (map fst ?pairs) (snd c))) (cols d)"
  let ?R = "map (\<lambda>c. (rf (fst c), take_rows_opt (map snd ?pairs) (snd c))) ?rc"
  let ?out = "\<lparr>nrows = length ?pairs, cols = ?L @ ?R\<rparr>"
  have ll: "length lk' = nrows d" using key_values_length [OF assms(5,2)] by (simp add: assms(9))
  have lr: "length rk' = nrows wm" using key_values_length [OF assms(6,3)] by (simp add: assms(10))
  have run: "weather_station_mapping self w =
      (Inr (Some wm), self\<lparr>df := Some ?out\<rparr>, w\<lparr>calls := calls w @ [ReadCsv (weather_map_data self)]\<rparr>)"
    by (rule weather_station_mapping_Some [OF assms(1,4) m])
  have wf: "wf_df ?out"
    by (simp add: wf_df_def list_all_iff take_rows_def take_rows_opt_def image_iff) auto
  have nr: "nrows ?out = length ?pairs" by simp
  have nc: "length (cols ?out) = length (cols d) + length ?rc" by simp
  have tk: "take (length (cols d)) (cols ?out) = ?L" and dr: "drop (length (cols d)) (cols ?out) = ?R"
    by simp_all
  have cnt: "\<forall>i<nrows d. count_list (map fst ?pairs) i = max 1 (count_list rk' (lk' ! i))"
    using count_fst_join_pairs [of _ lk' rk'] by (simp add: ll)
  have left: "\<forall>p<nrows ?out. fst (?pairs ! p) < nrows d
      \<and> row_of (take (length (cols d)) (cols ?out)) p = row_of (cols d) (fst (?pairs ! p))"
  proof (intro allI impI)
    fix p assume "p < nrows ?out"
    then have p: "p < length ?pairs" by simp
    then have "(fst (?pairs ! p), snd (?pairs ! p)) \<in> set ?pairs" by simp
    from join_pairs_sound [OF this] have "fst (?pairs ! p) < nrows d" by (simp add: ll)
    moreover have "row_of ?L p = row_of (cols d) (fst (?pairs ! p))"
      using p by (simp add: row_of_take_rows)
    ultimately show "fst (?pairs ! p) < nrows d
      \<and> row_of (take (length (cols d)) (cols ?out)) p = row_of (cols d) (fst (?pairs ! p))"
      unfolding tk by blast
  qed
  have right: "\<forall>p<nrows ?out.
      case snd (?pairs ! p) of
        None \<Rightarrow> lk' ! fst (?pairs ! p) \<notin> set rk'
          \<and> row_of (drop (length (cols d)) (cols ?out)) p = replicate (length ?rc) NaN
      | Some j \<Rightarrow> j < nrows wm \<and> rk' ! j = lk' ! fst (?pairs ! p)
          \<and> row_of (drop (length (cols d)) (cols ?out)) p
              = map (\<lambda>c. promote (None \<in> set (map snd ?pairs)) (snd c) ! j) ?rc"
  proof (intro allI impI)
    fix p assume "p < nrows ?out"
    then have p: "p < length ?pairs" by simp
    then have "(fst (?pairs ! p), snd (?pairs ! p)) \<in> set ?pairs" by simp
    from join_pairs_sound [OF this]
    have snd: "case snd (?pairs ! p) of None \<Rightarrow> lk' ! fst (?pairs ! p) \<notin> set rk'
        | Some j \<Rightarrow> j < length rk' \<and> rk' ! j = lk' ! fst (?pairs ! p)" by blast
    have "row_of ?R p = (case map snd ?pairs ! p of None \<Rightarrow> replicate (length ?rc) NaN
        | Some j \<Rightarrow> map (\<lambda>c. promote (None \<in> set (map snd ?pairs)) (snd c) ! j) ?rc)"
      using p by (intro row_of_take_rows_opt) simp
    then have row: "row_of ?R p = (case snd (?pairs ! p) of None \<Rightarrow> replicate (length ?rc) NaN
        | Some j \<Rightarrow> map (\<lambda>c. promote (None \<in> set (map snd ?pairs)) (snd c) ! j) ?rc)"
      using p by simp
    show "case snd (?pairs ! p) of
        None \<Rightarrow> lk' ! fst (?pairs ! p) \<notin> set rk'
          \<and> row_of (drop (length (cols d)) (cols ?out)) p = replicate (length ?rc) NaN
      | Some j \<Rightarrow> j < nrows wm \<and> rk' ! j = lk' ! fst (?pairs ! p)
          \<and> row_of (drop (length (cols d)) (cols ?out)) p
              = map (\<lambda>c. promote (None \<in> set (map snd ?pairs)) (snd c) ! j) ?rc"
      unfolding dr using snd row by (cases "snd (?pairs ! p)") (simp_all add: lr)
  qed
  have ge: "nrows d \<le> nrows ?out"
    using length_join_pairs_ge [of lk' rk'] by (simp add: ll)
  have strict: "nrows d < nrows ?out \<longrightarrow> \<not> distinct rk'"
    using length_join_pairs_distinct [of rk' lk'] by (auto simp: ll)
  show ?thesis
    apply (rule exI [of _ ?out])
    apply (rule exI [of _ ?pairs])
    apply (intro conjI)
              apply (rule run)
             apply (rule wf)
            apply (rule nr)
           apply (rule nc)
          apply (rule sorted_fst_join_pairs)
         apply (rule distinct_join_pairs)
        apply (rule cnt)
       apply (rule left)
      apply (rule right)
     apply (rule ge)
    apply (rule strict)
    done
qed

lemmas merge_defs = pd_merge_left_def key_values_def column_data_def labels_def join_pairs_def
  row_pairs_def matches_def take_rows_def take_rows_opt_def add_suffix_def suffix_dups_def Let_def
  merge_keys_error_def dtype_of_def key_mode_of_def promote_def infer_dtype_def first_valid_def

lemma ex_round_f64: "round_f64 4 = 4" "round_f64 0 = 0" "round_f64 2 = 2"
proof -
  have "\<bar>4 :: int\<bar> < 2 ^ 53" by simp
  from round_f64_small [OF this] show "round_f64 4 = 4" by simp
  have "\<bar>0 :: int\<bar> < 2 ^ 53" by simp
  from round_f64_small [OF this] show "round_f64 0 = 0" by simp
  have "\<bar>2 :: int\<bar> < 2 ^ 53" by simp
  from round_f64_small [OF this] show "round_f64 2 = 2" by simp
qed

lemma ex_merge_plots: "pd_merge_left ex_plots ex_stations ''Field_ID'' = Inr ex_plots_joined"
  by (simp add: merge_defs ex_plots_def ex_stations_def ex_plots_joined_def ex_round_f64)

theorem weather_station_mapping_left_join_witness:
  "weather_station_mapping ex_plots_proc ex_plots_world =
     (Inr (Some ex_stations), ex_plots_proc\<lparr>df := Some ex_plots_joined\<rparr>,
      ex_plots_world\<lparr>calls := [ReadCsv ''url'']\<rparr>)
   \<and> wf_df ex_plots_joined \<and> nrows ex_plots = 3 \<and> nrows ex_plots_joined = 4
   \<and> row_of (cols ex_plots_joined) 1 = row_of (cols ex_plots) 0 @ [Num 0]
   \<and> row_of (cols ex_plots_joined) 2 = row_of (cols ex_plots) 1 @ [NaN]
   \<and> \<not> distinct [I64 1, I64 1, I64 3 :: cell]"
proof -
  have h1: "df ex_plots_proc = Some ex_plots" by (simp add: ex_plots_proc_def)
  have h2: "wf_df ex_plots" by (simp add: ex_plots_def wf_df_def)
  have h3: "wf_df ex_stations" by (simp add: ex_stations_def wf_df_def)
  have h4: "read_csv ex_plots_world (weather_map_data ex_plots_proc) = Inr ex_stations"
    by (simp add: ex_plots_world_def)
  have h5: "key_values ex_plots ''Field_ID'' = Inr [I64 1, I64 2, I64 3]"
    by (simp add: ex_plots_def key_values_def column_data_def)
  have h6: "key_values ex_stations ''Field_ID'' = Inr [I64 1, I64 1, I64 3]"
    by (simp add: ex_stations_def key_values_def column_data_def)
  have h7: "\<not> merge_keys_error [I64 1, I64 2, I64 3] [I64 1, I64 1, I64 3]"
    by (simp add: merge_keys_error_def dtype_of_def)
  have h8: "pd_merge_left ex_plots ex_stations ''Field_ID'' \<noteq> Inl MergeError"
    by (simp add: ex_merge_plots)
  have mode: "key_mode_of [I64 1, I64 2, I64 3] [I64 1, I64 1, I64 3] = Same"
    by (simp add: key_mode_of_def dtype_of_def)
  have h9: "[I64 1, I64 2, I64 3] = map (norm_key (key_mode_of [I64 1, I64 2, I64 3] [I64 1, I64 1, I64 3]))
      [I64 1, I64 2, I64 3]"
    unfolding mode by simp
  have h10: "[I64 1, I64 1, I64 3] = map (norm_key (key_mode_of [I64 1, I64 2, I64 3] [I64 1, I64 1, I64 3]))
      [I64 1, I64 1, I64 3]"
    unfolding mode by simp
  have c: "calls ex_plots_world @ [ReadCsv (weather_map_data ex_plots_proc)] = [ReadCsv ''url'']"
    by (simp add: ex_plots_world_def ex_plots_proc_def init_def)
  have n3: "nrows ex_plots = 3" by (simp add: ex_plots_def)
  have n4: "nrows ex_plots_joined = 4" by (simp add: ex_plots_joined_def)
  from weather_station_mapping_left_join [OF h1 h2 h3 h4 h5 h6 h7 h8 h9 h10]
  obtain out where run: "weather_station_mapping ex_plots_proc ex_plots_world =
       (Inr (Some ex_stations), ex_plots_proc\<lparr>df := Some out\<rparr>,
        ex_plots_world\<lparr>calls := calls ex_plots_world @ [ReadCsv (weather_map_data ex_plots_proc)]\<rparr>)"
    and wf: "wf_df out" and ge: "nrows ex_plots \<le> nrows out"
    and strict: "nrows ex_plots < nrows out \<longrightarrow> \<not> distinct [I64 1, I64 1, I64 3 :: cell]"
    by (elim exE conjE)
  from weather_station_mapping_Some [OF h1 h4 ex_merge_plots] run
  have "ex_plots_proc\<lparr>df := Some out\<rparr> = ex_plots_proc\<lparr>df := Some ex_plots_joined\<rparr>" by simp
  then have "df (ex_plots_proc\<lparr>df := Some out\<rparr>) = df (ex_plots_proc\<lparr>df := Some ex_plots_joined\<rparr>)"
    by (rule arg_cong)
  then have out: "out = ex_plots_joined" by simp
  have r1: "row_of (cols ex_plots_joined) 1 = row_of (cols ex_plots) 0 @ [Num 0]"
    by (simp add: row_of_def ex_plots_joined_def ex_plots_def)
  have r2: "row_of (cols ex_plots_joined) 2 = row_of (cols ex_plots) 1 @ [NaN]"
    by (simp add: row_of_def ex_plots_joined_def ex_plots_def)
  from strict have nd: "\<not> distinct [I64 1, I64 1, I64 3 :: cell]"
    unfolding out n3 n4 by simp
  from run have run': "weather_station_mapping ex_plots_proc ex_plots_world =
     (Inr (Some ex_stations), ex_plots_proc\<lparr>df := Some ex_plots_joined\<rparr>,
      ex_plots_world\<lparr>calls := [ReadCsv ''url'']\<rparr>)"
    unfolding out c .
  from wf have wf': "wf_df ex_plots_joined" unfolding out .
  show ?thesis
    by (intro conjI) (rule run', rule wf', rule n3, rule n4, rule r1, rule r2, rule nd)
qed

text \<open>
  The property as the specification states it, that the join is performed for every two
  tables that contain \<open>Field_ID\<close>, fails when the field table holds its identifiers as
  integers and the mapping table holds them as strings: \<open>merge\<close> raises ValueError, the
  working table stays as it was, and nothing is returned.
\<close>

theorem weather_station_mapping_dtype_counterexample:
  "df ex_plots_proc = Some ex_plots
   \<and> read_csv ex_labels_world ''url'' = Inr ex_station_labels
   \<and> column_data ex_plots ''Field_ID'' = [[I64 1, I64 2, I64 3]]
   \<and> column_data ex_station_labels ''Field_ID'' = [[Str ''1'', Str ''1'', Str ''3'']]
   \<and> weather_station_mapping ex_plots_proc ex_labels_world =
       (Inl ValueError, ex_plots_proc, ex_labels_world\<lparr>calls := [ReadCsv ''url'']\<rparr>)"
  by (simp add: weather_station_mapping_def read_from_web_CSV_def merge_defs
      ex_plots_proc_def ex_plots_def ex_labels_world_def ex_station_labels_def init_def)

text \<open>
  C10. While no table has been ingested, \<open>weather_station_mapping\<close> returns None, leaves
  the object as it is and calls nothing outside.
\<close>

theorem weather_station_mapping_before_ingest:
  assumes "df self = None"
  shows "weather_station_mapping self w = (Inr None, self, w)"
  using assms by (simp add: weather_station_mapping_def)

theorem weather_station_mapping_before_ingest_witness:
  "df ex_new = None \<and> weather_station_mapping ex_new ex_world = (Inr None, ex_new, ex_world)"
proof -
  have h: "df ex_new = None" by (simp add: ex_defs)
  show ?thesis using h weather_station_mapping_before_ingest [OF h, of ex_world] by simp
qed

section \<open>The Pipeline Orchestrator\<close>

lemma apply_corrections_df:
  assumes "apply_corrections self cn ac = (Inr (), self')"
  shows "\<exists>d d'. df self = Some d \<and> df self' = Some d'"
proof (cases "df self")
  case None
  then have "apply_corrections self cn ac = (Inl TypeError, self)"
    by (simp add: apply_corrections_def corrections_abs_def)
  with assms show ?thesis by simp
next
  case (Some d)
  from apply_corrections_Inr [OF Some assms] show ?thesis using Some by auto
qed

lemma weather_station_mapping_df:
  assumes "weather_station_mapping self w = (Inr r, self', w')" and "df self = Some d"
  shows "\<exists>m. df self' = Some m"
  using assms
  by (auto simp: weather_station_mapping_def split: prod.splits sum.splits)

lemma process_after_stages:
  assumes "ingest_sql_data self w = (Inr d0, s1, w1)"
    and "rename_columns s1 = (Inr (), s2)"
    and "apply_corrections s2 ''Crop_type'' ''Elevation'' = (Inr (), s3)"
    and "weather_station_mapping s3 w1 = (Inr r, s4, w2)"
    and "df s4 = Some d"
  shows "process self w =
           (case df_drop ''Unnamed: 0'' d of
              Inl e \<Rightarrow> (Inl e, s4, w2)
            | Inr d' \<Rightarrow> (Inr (), s4\<lparr>df := Some d'\<rparr>, w2))"
  using assms by (simp add: process_def)


lemmas ex_defs2 = ex_defs ex_weather_empty_def ex_weather_noindex_def ex_world_empty_def
  ex_world_noindex_def ex_swapped_def ex_clean_def ex_joined_def ex_final_def
  ex_joined_empty_def ex_final_empty_def ex_s1_def ex_calls_def

lemma ex_ingest:
  assumes "connect W ''db'' = None" and "read_sql_query W ''db'' ''q'' = Inr ex_raw"
    and "calls W = []"
  shows "ingest_sql_data ex_new W = (Inr ex_raw, ex_s1, W\<lparr>calls := ex_calls\<rparr>)"
  using assms
  by (simp add: ingest_sql_data_def create_db_engine_def df_empty_def ex_defs2)

lemma ex_rename: "rename_columns ex_s1 = (Inr (), ex_s1\<lparr>df := Some ex_swapped\<rparr>)"
proof -
  have "temp_name_loop [''Field_ID'', ''Elevation'', ''Annual_yield'', ''Crop_type''] ''__temp_name_for_swap__''
      = ''__temp_name_for_swap__''"
    by (simp add: temp_name_loop.simps)
  then show ?thesis
    by (simp add: rename_columns_def labels_def df_rename_def ex_defs2)
qed

lemma ex_correct:
  "apply_corrections (ex_s1\<lparr>df := Some ex_swapped\<rparr>) ''Crop_type'' ''Elevation''
     = (Inr (), ex_s1\<lparr>df := Some ex_clean\<rparr>)"
  by (simp add: apply_corrections_def corrections_abs_def corrections_rename_values_def
      df_abs_column_def df_apply_column_def convert_objects_def labels_def ex_defs2)

lemma ex_merge_clean: "pd_merge_left ex_clean ex_weather ''Field_ID'' = Inr ex_joined"
  by (simp add: merge_defs ex_defs2)

lemma ex_merge_empty: "pd_merge_left ex_clean ex_weather_empty ''Field_ID'' = Inr ex_joined_empty"
  by (simp add: merge_defs ex_defs2)

lemma ex_join:
  assumes "read_csv W ''url'' = Inr ex_weather"
  shows "weather_station_mapping (ex_s1\<lparr>df := Some ex_clean\<rparr>) W
     = (Inr (Some ex_weather), ex_s1\<lparr>df := Some ex_joined\<rparr>, W\<lparr>calls := calls W @ [ReadCsv ''url'']\<rparr>)"
proof -
  have a: "df (ex_s1\<lparr>df := Some ex_clean\<rparr>) = Some ex_clean" by simp
  have b: "weather_map_data (ex_s1\<lparr>df := Some ex_clean\<rparr>) = ''url''" by (simp add: ex_defs2)
  from weather_station_mapping_Some [OF a _ ex_merge_clean, of W] assms b
  show ?thesis by simp
qed

lemma ex_merge_noindex:
  "pd_merge_left ex_clean ex_weather_noindex ''Field_ID'' = Inr ex_joined_noindex"
  by (simp add: merge_defs ex_defs2 ex_joined_noindex_def)

lemma ex_join_any:
  assumes "read_csv W ''url'' = Inr wm" and "pd_merge_left ex_clean wm ''Field_ID'' = Inr out"
  shows "weather_station_mapping (ex_s1\<lparr>df := Some ex_clean\<rparr>) W
     = (Inr (Some wm), ex_s1\<lparr>df := Some out\<rparr>, W\<lparr>calls := calls W @ [ReadCsv ''url'']\<rparr>)"
proof -
  have a: "df (ex_s1\<lparr>df := Some ex_clean\<rparr>) = Some ex_clean" by simp
  have b: "weather_map_data (ex_s1\<lparr>df := Some ex_clean\<rparr>) = ''url''" by (simp add: ex_defs2)
  from weather_station_mapping_Some [OF a _ assms(2), of W] assms(1) b
  show ?thesis by simp
qed

text \<open>
  C6, as the code has it. \<open>process\<close> runs ingestion, the column swap, the corrections
  and the join in this order, each on the object the stage before left, and the first
  stage that raises ends the run with its exception. After four successful stages it drops the column
  \<open>Unnamed: 0\<close> from the joined table; when the joined table has no such column it raises
  KeyError and leaves the joined table as the working table.
\<close>

theorem process_stages_then_drop:
  "(ingest_sql_data self w = (Inl e1, t1, v1) \<longrightarrow> process self w = (Inl e1, t1, v1))
   \<and> (ingest_sql_data self w = (Inr d0, s1, w1) \<and> rename_columns s1 = (Inl e2, t2)
        \<longrightarrow> process self w = (Inl e2, t2, w1))
   \<and> (ingest_sql_data self w = (Inr d0, s1, w1) \<and> rename_columns s1 = (Inr (), s2)
        \<and> apply_corrections s2 ''Crop_type'' ''Elevation'' = (Inl e3, t3)
        \<longrightarrow> process self w = (Inl e3, t3, w1))
   \<and> (ingest_sql_data self w = (Inr d0, s1, w1) \<and> rename_columns s1 = (Inr (), s2)
        \<and> apply_corrections s2 ''Crop_type'' ''Elevation'' = (Inr (), s3)
        \<and> weather_station_mapping s3 w1 = (Inl e4, t4, v4)
        \<longrightarrow> process self w = (Inl e4, t4, v4))
   \<and> (ingest_sql_data self w = (Inr d0, s1, w1) \<and> rename_columns s1 = (Inr (), s2)
        \<and> apply_corrections s2 ''Crop_type'' ''Elevation'' = (Inr (), s3)
        \<and> weather_station_mapping s3 w1 = (Inr r, s4, w2)
        \<longrightarrow> (\<exists>d. df s4 = Some d
              \<and> process self w =
                  (if ''Unnamed: 0'' \<in> set (labels d)
                   then (Inr (), s4\<lparr>df := Some (d\<lparr>cols := filter (\<lambda>c. fst c \<noteq> ''Unnamed: 0'') (cols d)\<rparr>)\<rparr>, w2)
                   else (Inl (KeyError ''Unnamed: 0''), s4, w2))))"
proof (intro conjI impI)
  assume "ingest_sql_data self w = (Inl e1, t1, v1)"
  then show "process self w = (Inl e1, t1, v1)" by (simp add: process_def)
next
  assume "ingest_sql_data self w = (Inr d0, s1, w1) \<and> rename_columns s1 = (Inl e2, t2)"
  then show "process self w = (Inl e2, t2, w1)" by (simp add: process_def)
next
  assume "ingest_sql_data self w = (Inr d0, s1, w1) \<and> rename_columns s1 = (Inr (), s2)
        \<and> apply_corrections s2 ''Crop_type'' ''Elevation'' = (Inl e3, t3)"
  then show "process self w = (Inl e3, t3, w1)" by (simp add: process_def)
next
  assume "ingest_sql_data self w = (Inr d0, s1, w1) \<and> rename_columns s1 = (Inr (), s2)
        \<and> apply_corrections s2 ''Crop_type'' ''Elevation'' = (Inr (), s3)
        \<and> weather_station_mapping s3 w1 = (Inl e4, t4, v4)"
  then show "process self w = (Inl e4, t4, v4)" by (simp add: process_def)
next
  assume a: "ingest_sql_data self w = (Inr d0, s1, w1) \<and> rename_columns s1 = (Inr (), s2)
        \<and> apply_corrections s2 ''Crop_type'' ''Elevation'' = (Inr (), s3)
        \<and> weather_station_mapping s3 w1 = (Inr r, s4, w2)"
  then have i: "ingest_sql_data self w = (Inr d0, s1, w1)" and rn: "rename_columns s1 = (Inr (), s2)"
    and c: "apply_corrections s2 ''Crop_type'' ''Elevation'' = (Inr (), s3)"
    and j: "weather_station_mapping s3 w1 = (Inr r, s4, w2)" by blast+
  from apply_corrections_df [OF c] obtain d3 where "df s3 = Some d3" by blast
  from weather_station_mapping_df [OF j this] obtain d where d: "df s4 = Some d" by blast
  have "process self w =
      (if ''Unnamed: 0'' \<in> set (labels d)
       then (Inr (), s4\<lparr>df := Some (d\<lparr>cols := filter (\<lambda>c. fst c \<noteq> ''Unnamed: 0'') (cols d)\<rparr>)\<rparr>, w2)
       else (Inl (KeyError ''Unnamed: 0''), s4, w2))"
    unfolding process_after_stages [OF i rn c j d] by (simp add: df_drop_def)
  with d show "\<exists>d. df s4 = Some d
      \<and> process self w =
          (if ''Unnamed: 0'' \<in> set (labels d)
           then (Inr (), s4\<lparr>df := Some (d\<lparr>cols := filter (\<lambda>c. fst c \<noteq> ''Unnamed: 0'') (cols d)\<rparr>)\<rparr>, w2)
           else (Inl (KeyError ''Unnamed: 0''), s4, w2))" by blast
qed

lemma ex_world_facts:
  "connect ex_world ''db'' = None" "read_sql_query ex_world ''db'' ''q'' = Inr ex_raw"
  "calls ex_world = []" "read_csv (ex_world\<lparr>calls := ex_calls\<rparr>) ''url'' = Inr ex_weather"
  by (simp_all add: ex_defs2)

lemma ex_world_noindex_facts:
  "connect ex_world_noindex ''db'' = None" "read_sql_query ex_world_noindex ''db'' ''q'' = Inr ex_raw"
  "calls ex_world_noindex = []"
  "read_csv (ex_world_noindex\<lparr>calls := ex_calls\<rparr>) ''url'' = Inr ex_weather_noindex"
  by (simp_all add: ex_defs2)

lemma ex_world_empty_facts:
  "connect ex_world_empty ''db'' = None" "read_sql_query ex_world_empty ''db'' ''q'' = Inr ex_raw"
  "calls ex_world_empty = []"
  "read_csv (ex_world_empty\<lparr>calls := ex_calls\<rparr>) ''url'' = Inr ex_weather_empty"
  by (simp_all add: ex_defs2)

theorem process_stages_then_drop_witness:
  "process ex_new ex_world
     = (Inr (), ex_s1\<lparr>df := Some ex_final\<rparr>, ex_world\<lparr>calls := ex_calls @ [ReadCsv ''url'']\<rparr>)"
proof -
  note i = ex_ingest [OF ex_world_facts(1,2,3)]
  note j = ex_join_any [OF ex_world_facts(4) ex_merge_clean]
  have stages: "ingest_sql_data ex_new ex_world = (Inr ex_raw, ex_s1, ex_world\<lparr>calls := ex_calls\<rparr>)
      \<and> rename_columns ex_s1 = (Inr (), ex_s1\<lparr>df := Some ex_swapped\<rparr>)
      \<and> apply_corrections (ex_s1\<lparr>df := Some ex_swapped\<rparr>) ''Crop_type'' ''Elevation''
          = (Inr (), ex_s1\<lparr>df := Some ex_clean\<rparr>)
      \<and> weather_station_mapping (ex_s1\<lparr>df := Some ex_clean\<rparr>) (ex_world\<lparr>calls := ex_calls\<rparr>)
          = (Inr (Some ex_weather), ex_s1\<lparr>df := Some ex_joined\<rparr>,
             ex_world\<lparr>calls := ex_calls @ [ReadCsv ''url'']\<rparr>)"
    using i ex_rename ex_correct j by simp
  from process_stages_then_drop [THEN conjunct2, THEN conjunct2, THEN conjunct2, THEN conjunct2,
      rule_format, OF stages]
  obtain d where d: "df (ex_s1\<lparr>df := Some ex_joined\<rparr>) = Some d"
    and p: "process ex_new ex_world =
      (if ''Unnamed: 0'' \<in> set (labels d)
       then (Inr (), ex_s1\<lparr>df := Some ex_joined\<rparr>\<lparr>df := Some (d\<lparr>cols := filter (\<lambda>c. fst c \<noteq> ''Unnamed: 0'') (cols d)\<rparr>)\<rparr>,
             ex_world\<lparr>calls := ex_calls @ [ReadCsv ''url'']\<rparr>)
       else (Inl (KeyError ''Unnamed: 0''), ex_s1\<lparr>df := Some ex_joined\<rparr>,
             ex_world\<lparr>calls := ex_calls @ [ReadCsv ''url'']\<rparr>))"
    by blast
  from d have "d = ex_joined" by simp
  then show ?thesis unfolding p by (simp add: labels_def ex_joined_def ex_final_def)
qed

text \<open>
  The property as the specification states it, that \<open>process\<close> completes when the column
  is absent, fails on a mapping table without the column \<open>Unnamed: 0\<close>.
\<close>

theorem process_missing_index_counterexample:
  "process ex_new ex_world_noindex
     = (Inl (KeyError ''Unnamed: 0''), ex_s1\<lparr>df := Some ex_joined_noindex\<rparr>,
        ex_world_noindex\<lparr>calls := ex_calls @ [ReadCsv ''url'']\<rparr>)
   \<and> ''Unnamed: 0'' \<notin> set (labels ex_joined_noindex)"
proof -
  note i = ex_ingest [OF ex_world_noindex_facts(1,2,3)]
  have j: "weather_station_mapping (ex_s1\<lparr>df := Some ex_clean\<rparr>) (ex_world_noindex\<lparr>calls := ex_calls\<rparr>)
      = (Inr (Some ex_weather_noindex), ex_s1\<lparr>df := Some ex_joined_noindex\<rparr>,
         ex_world_noindex\<lparr>calls := ex_calls @ [ReadCsv ''url'']\<rparr>)"
    using ex_join_any [OF ex_world_noindex_facts(4) ex_merge_noindex] by simp
  have d: "df (ex_s1\<lparr>df := Some ex_joined_noindex\<rparr>) = Some ex_joined_noindex" by simp
  have n: "''Unnamed: 0'' \<notin> set (labels ex_joined_noindex)"
    by (simp add: labels_def ex_joined_noindex_def)
  show ?thesis
    unfolding process_after_stages [OF i ex_rename ex_correct j d] using n
    by (simp add: df_drop_def)
qed

lemma join_pairs_no_right:
  "join_pairs lk [] = map (\<lambda>i. (i, None)) [0..<length lk]"
proof -
  have rp: "row_pairs [] ik = [(fst ik, None)]" for ik
    by (simp add: row_pairs_def matches_def)
  have "join_pairs lk [] = map (\<lambda>ik. (fst ik, None)) (enumerate 0 lk)"
    unfolding join_pairs_def by (induction lk rule: rev_induct) (simp_all add: rp enumerate_append_eq)
  also have "\<dots> = map (\<lambda>i. (i, None)) (map fst (enumerate 0 lk))"
    by (simp only: map_map comp_def)
  also have "\<dots> = map (\<lambda>i. (i, None)) [0..<length lk]"
    by (simp add: map_fst_enumerate)
  finally show ?thesis .
qed

text \<open>
  C5, as the code has it. When the mapping table that the fetch returns has no rows (and
  one column \<open>Field_ID\<close>), the join raises nothing on that account: it returns the mapping table and
  leaves every row of the field table once, in order, with NaN in every column that comes
  from the mapping table. \<open>process\<close> then ends as it does after any join: with the final
  table when \<open>Unnamed: 0\<close> is among the joined labels, with KeyError otherwise.
\<close>

theorem process_empty_mapping:
  assumes "ingest_sql_data self w = (Inr d0, s1, w1)"
    and "rename_columns s1 = (Inr (), s2)"
    and "apply_corrections s2 ''Crop_type'' ''Elevation'' = (Inr (), s3)"
    and "df s3 = Some d" and "wf_df d" and "wf_df wm"
    and "read_csv w1 (weather_map_data s3) = Inr wm" and "nrows wm = 0"
    and "key_values d ''Field_ID'' = Inr lk" and "key_values wm ''Field_ID'' = Inr rk"
    and "pd_merge_left d wm ''Field_ID'' \<noteq> Inl MergeError"
  shows "\<exists>out w2.
           weather_station_mapping s3 w1 = (Inr (Some wm), s3\<lparr>df := Some out\<rparr>, w2)
         \<and> nrows out = nrows d
         \<and> (\<forall>p<nrows d. row_of (take (length (cols d)) (cols out)) p = row_of (cols d) p
               \<and> row_of (drop (length (cols d)) (cols out)) p
                   = replicate (length (filter (\<lambda>c. fst c \<noteq> ''Field_ID'') (cols wm))) NaN)
         \<and> process self w =
             (if ''Unnamed: 0'' \<in> set (labels out)
              then (Inr (), s3\<lparr>df := Some (out\<lparr>cols := filter (\<lambda>c. fst c \<noteq> ''Unnamed: 0'') (cols out)\<rparr>)\<rparr>, w2)
              else (Inl (KeyError ''Unnamed: 0''), s3\<lparr>df := Some out\<rparr>, w2))"
proof -
  let ?rc = "filter (\<lambda>c. fst c \<noteq> ''Field_ID'') (cols wm)"
  have ll: "length lk = nrows d" by (rule key_values_length [OF assms(9,5)])
  have "length rk = nrows wm" by (rule key_values_length [OF assms(10,6)])
  with assms(8) have rk: "rk = []" by simp
  let ?pairs = "map (\<lambda>i. (i, None :: nat option)) [0..<nrows d]"
  have mk: "\<not> merge_keys_error lk rk" by (simp add: rk merge_keys_error_no_right)
  have pairs: "join_pairs (map (norm_key (key_mode_of lk rk)) lk) (map (norm_key (key_mode_of lk rk)) rk)
      = ?pairs"
    by (simp add: rk join_pairs_no_right ll)
  from pd_merge_left_Inr [OF assms(9,10) mk assms(11) refl refl] obtain lf rf where
    m: "pd_merge_left d wm ''Field_ID'' =
          Inr \<lparr>nrows = length ?pairs,
               cols = map (\<lambda>c. (lf (fst c), take_rows (map fst ?pairs) (snd c))) (cols d) @
                      map (\<lambda>c. (rf (fst c), take_rows_opt (map snd ?pairs) (snd c))) ?rc\<rparr>"
    unfolding pairs by blast
  let ?L = "map (\<lambda>c. (lf (fst c), take_rows (map fst ?pairs) (snd c))) (cols d)"
  let ?R = "map (\<lambda>c. (rf (fst c), take_rows_opt (map snd ?pairs) (snd c))) ?rc"
  let ?out = "\<lparr>nrows = length ?pairs, cols = ?L @ ?R\<rparr>"
  let ?w2 = "w1\<lparr>calls := calls w1 @ [ReadCsv (weather_map_data s3)]\<rparr>"
  have run: "weather_station_mapping s3 w1 = (Inr (Some wm), s3\<lparr>df := Some ?out\<rparr>, ?w2)"
    by (rule weather_station_mapping_Some [OF assms(4,7) m])
  have nr: "nrows ?out = nrows d" by simp
  have tk: "take (length (cols d)) (cols ?out) = ?L" and dr: "drop (length (cols d)) (cols ?out) = ?R"
    by simp_all
  have rows: "\<forall>p<nrows d. row_of (take (length (cols d)) (cols ?out)) p = row_of (cols d) p
      \<and> row_of (drop (length (cols d)) (cols ?out)) p = replicate (length ?rc) NaN"
  proof (intro allI impI)
    fix p assume p: "p < nrows d"
    then have "row_of ?L p = row_of (cols d) (map fst ?pairs ! p)"
      by (intro row_of_take_rows) simp
    then have l: "row_of ?L p = row_of (cols d) p" using p by simp
    have "row_of ?R p = (case map snd ?pairs ! p of None \<Rightarrow> replicate (length ?rc) NaN
        | Some j \<Rightarrow> map (\<lambda>c. promote (None \<in> set (map snd ?pairs)) (snd c) ! j) ?rc)"
      using p by (intro row_of_take_rows_opt) simp
    then have "row_of ?R p = replicate (length ?rc) NaN" using p by simp
    with l show "row_of (take (length (cols d)) (cols ?out)) p = row_of (cols d) p
      \<and> row_of (drop (length (cols d)) (cols ?out)) p = replicate (length ?rc) NaN"
      unfolding tk dr by blast
  qed
  have d4: "df (s3\<lparr>df := Some ?out\<rparr>) = Some ?out" by simp
  have proc: "process self w =
      (if ''Unnamed: 0'' \<in> set (labels ?out)
       then (Inr (), s3\<lparr>df := Some (?out\<lparr>cols := filter (\<lambda>c. fst c \<noteq> ''Unnamed: 0'') (cols ?out)\<rparr>)\<rparr>, ?w2)
       else (Inl (KeyError ''Unnamed: 0''), s3\<lparr>df := Some ?out\<rparr>, ?w2))"
    unfolding process_after_stages [OF assms(1,2,3) run d4] by (simp add: df_drop_def)
  show ?thesis
    apply (rule exI [of _ ?out])
    apply (rule exI [of _ ?w2])
    apply (intro conjI)
       apply (rule run)
      apply (rule nr)
     apply (rule rows)
    apply (rule proc)
    done
qed

theorem process_empty_mapping_witness:
  "\<exists>out w2.
       weather_station_mapping (ex_s1\<lparr>df := Some ex_clean\<rparr>) (ex_world_empty\<lparr>calls := ex_calls\<rparr>)
         = (Inr (Some ex_weather_empty), ex_s1\<lparr>df := Some out\<rparr>, w2)
     \<and> nrows out = 3
     \<and> process ex_new ex_world_empty =
         (if ''Unnamed: 0'' \<in> set (labels out)
          then (Inr (), ex_s1\<lparr>df := Some (out\<lparr>cols := filter (\<lambda>c. fst c \<noteq> ''Unnamed: 0'') (cols out)\<rparr>)\<rparr>, w2)
          else (Inl (KeyError ''Unnamed: 0''), ex_s1\<lparr>df := Some out\<rparr>, w2))"
proof -
  note i = ex_ingest [OF ex_world_empty_facts(1,2,3)]
  have h4: "df (ex_s1\<lparr>df := Some ex_clean\<rparr>) = Some ex_clean" by simp
  have h5: "wf_df ex_clean" by (simp add: wf_df_def ex_defs2)
  have h6: "wf_df ex_weather_empty" by (simp add: wf_df_def ex_defs2)
  have h7: "read_csv (ex_world_empty\<lparr>calls := ex_calls\<rparr>) (weather_map_data (ex_s1\<lparr>df := Some ex_clean\<rparr>))
      = Inr ex_weather_empty" by (simp add: ex_defs2)
  have h8: "nrows ex_weather_empty = 0" by (simp add: ex_defs2)
  have h9: "key_values ex_clean ''Field_ID'' = Inr [Num 1, Num 2, Num 3]"
    by (simp add: key_values_def column_data_def ex_defs2)
  have h10: "key_values ex_weather_empty ''Field_ID'' = Inr []"
    by (simp add: key_values_def column_data_def ex_defs2)
  have h11: "pd_merge_left ex_clean ex_weather_empty ''Field_ID'' \<noteq> Inl MergeError"
    by (simp add: ex_merge_empty)
  have n: "nrows ex_clean = 3" by (simp add: ex_defs2)
  from process_empty_mapping [OF i ex_rename ex_correct h4 h5 h6 h7 h8 h9 h10 h11]
  obtain out w2 where
    a: "weather_station_mapping (ex_s1\<lparr>df := Some ex_clean\<rparr>) (ex_world_empty\<lparr>calls := ex_calls\<rparr>)
         = (Inr (Some ex_weather_empty), ex_s1\<lparr>df := Some ex_clean\<rparr>\<lparr>df := Some out\<rparr>, w2)"
    and b: "nrows out = nrows ex_clean"
    and c: "process ex_new ex_world_empty =
         (if ''Unnamed: 0'' \<in> set (labels out)
          then (Inr (), ex_s1\<lparr>df := Some ex_clean\<rparr>\<lparr>df := Some (out\<lparr>cols := filter (\<lambda>c. fst c \<noteq> ''Unnamed: 0'') (cols out)\<rparr>)\<rparr>, w2)
          else (Inl (KeyError ''Unnamed: 0''), ex_s1\<lparr>df := Some ex_clean\<rparr>\<lparr>df := Some out\<rparr>, w2))"
    by (elim exE conjE)
  show ?thesis
    using a b c n by (intro exI [of _ out] exI [of _ w2]) simp
qed

text \<open>
  The property as the specification states it, that \<open>process\<close> raises when the fetched
  mapping table has no rows, fails: here the run completes and the final table is stored.
\<close>

theorem process_empty_mapping_counterexample:
  "nrows ex_weather_empty = 0
   \<and> read_csv ex_world_empty ''url'' = Inr ex_weather_empty
   \<and> process ex_new ex_world_empty
       = (Inr (), ex_s1\<lparr>df := Some ex_final_empty\<rparr>,
          ex_world_empty\<lparr>calls := ex_calls @ [ReadCsv ''url'']\<rparr>)"
proof -
  note i = ex_ingest [OF ex_world_empty_facts(1,2,3)]
  have j: "weather_station_mapping (ex_s1\<lparr>df := Some ex_clean\<rparr>) (ex_world_empty\<lparr>calls := ex_calls\<rparr>)
      = (Inr (Some ex_weather_empty), ex_s1\<lparr>df := Some ex_joined_empty\<rparr>,
         ex_world_empty\<lparr>calls := ex_calls @ [ReadCsv ''url'']\<rparr>)"
    using ex_join_any [OF ex_world_empty_facts(4) ex_merge_empty] by simp
  have d: "df (ex_s1\<lparr>df := Some ex_joined_empty\<rparr>) = Some ex_joined_empty" by simp
  have "process ex_new ex_world_empty
       = (Inr (), ex_s1\<lparr>df := Some ex_final_empty\<rparr>,
          ex_world_empty\<lparr>calls := ex_calls @ [ReadCsv ''url'']\<rparr>)"
    unfolding process_after_stages [OF i ex_rename ex_correct j d]
    by (simp add: df_drop_def labels_def ex_joined_empty_def ex_final_empty_def)
  then show ?thesis by (simp add: ex_defs2)
qed

section \<open>Elevation after the corrections and in the final table\<close>



lemma labels_df_rename:
  "labels (df_rename m d) = map (\<lambda>n. case m n of None \<Rightarrow> n | Some n' \<Rightarrow> n') (labels d)"
  by (simp add: labels_def df_rename_def comp_def)



























end
